theory Spec2Isabelle
  imports Complex_Main
begin

section \<open>Sketchris: the Tetris core of sketchris.js\<close>

text \<open>
  The game keeps its state in variables of one closure: \<^verbatim>\<open>arena\<close>, \<^verbatim>\<open>player\<close>,
  \<^verbatim>\<open>score\<close>, \<^verbatim>\<open>level\<close>, \<^verbatim>\<open>cleared\<close>, \<^verbatim>\<open>queue\<close>, \<^verbatim>\<open>dropCounter\<close>,
  \<^verbatim>\<open>lastTime\<close>, \<^verbatim>\<open>paused\<close>, \<^verbatim>\<open>drawing\<close>, \<^verbatim>\<open>gameReady\<close>. Every function below
  takes that state as a record and returns the state it leaves behind. A JavaScript
  exception is a value: \<open>Threw e s\<close> carries the state at the moment of the throw,
  since the mutations done before it stay.
\<close>

subsection \<open>Data\<close>

text \<open>\<^verbatim>\<open>PIECE_CODES = ['I','J','L','O','S','T','Z']\<close>, named as in \<^verbatim>\<open>CLASS_NAMES\<close>.\<close>

datatype piece_code = I_Piece | J_Piece | L_Piece | O_Piece | S_Piece | T_Piece | Z_Piece

datatype js_error = TypeError | ReferenceError

datatype 'a result = Returned 'a | Threw js_error 'a

datatype cue = Summon | Lock | Line

text \<open>
  A shape matrix holds the numbers 0 and 1 and is only ever tested for truthiness.
  An arena cell is \<^verbatim>\<open>null\<close> (\<open>None\<close>) or the code of the piece locked there.
\<close>

type_synonym matrix = "nat list list"

type_synonym cell = "piece_code option"

type_synonym arena = "cell list list"

record pos =
  pos_x :: int
  pos_y :: int

record player =
  pos :: pos
  matrix :: "matrix option"
  rot :: nat
  type :: "piece_code option"

record game =
  arena :: arena
  player :: player
  score :: int
  level :: int
  cleared :: int
  queue :: "piece_code list"
  dropCounter :: real
  lastTime :: real
  paused :: bool
  drawing :: bool
  gameReady :: bool
  pending :: nat
  overlay :: bool
  cues :: "cue list"

text \<open>
  \<open>overlay\<close> is what \<^verbatim>\<open>showPadOverlay\<close> last set, \<open>cues\<close> the audio cues handed to
  \<^verbatim>\<open>AudioMgr.play\<close> so far, oldest first, and \<open>pending\<close> the number of classifications
  (\<^verbatim>\<open>await predictPad()\<close>) that have not come back yet.
\<close>

definition COLS :: nat where
  "COLS = 10"

definition ROWS :: nat where
  "ROWS = 20"

definition DROP_START_SPEED_MS :: int where
  "DROP_START_SPEED_MS = 800"

definition SPEED_PER_LEVEL :: int where
  "SPEED_PER_LEVEL = 60"

fun SHAPES :: "piece_code \<Rightarrow> matrix list" where
  "SHAPES I_Piece =
     [[[0,0,0,0],[1,1,1,1],[0,0,0,0],[0,0,0,0]],
      [[0,0,1,0],[0,0,1,0],[0,0,1,0],[0,0,1,0]],
      [[0,0,0,0],[0,0,0,0],[1,1,1,1],[0,0,0,0]],
      [[0,1,0,0],[0,1,0,0],[0,1,0,0],[0,1,0,0]]]"
| "SHAPES O_Piece =
     [[[1,1],[1,1]],
      [[1,1],[1,1]],
      [[1,1],[1,1]],
      [[1,1],[1,1]]]"
| "SHAPES T_Piece =
     [[[0,1,0],[1,1,1],[0,0,0]],
      [[0,1,0],[0,1,1],[0,1,0]],
      [[0,0,0],[1,1,1],[0,1,0]],
      [[0,1,0],[1,1,0],[0,1,0]]]"
| "SHAPES S_Piece =
     [[[0,1,1],[1,1,0],[0,0,0]],
      [[0,1,0],[0,1,1],[0,0,1]],
      [[0,0,0],[0,1,1],[1,1,0]],
      [[1,0,0],[1,1,0],[0,1,0]]]"
| "SHAPES Z_Piece =
     [[[1,1,0],[0,1,1],[0,0,0]],
      [[0,0,1],[0,1,1],[0,1,0]],
      [[0,0,0],[1,1,0],[0,1,1]],
      [[0,1,0],[1,1,0],[1,0,0]]]"
| "SHAPES J_Piece =
     [[[1,0,0],[1,1,1],[0,0,0]],
      [[0,1,1],[0,1,0],[0,1,0]],
      [[0,0,0],[1,1,1],[0,0,1]],
      [[0,1,0],[0,1,0],[1,1,0]]]"
| "SHAPES L_Piece =
     [[[0,0,1],[1,1,1],[0,0,0]],
      [[0,1,0],[0,1,0],[0,1,1]],
      [[0,0,0],[1,1,1],[1,0,0]],
      [[1,1,0],[0,1,0],[0,1,0]]]"

text \<open>\<^verbatim>\<open>Array.from({length: ROWS}, ()=>Array(COLS).fill(null))\<close>\<close>

definition createMatrix :: arena where
  "createMatrix = replicate ROWS (replicate COLS None)"

subsection \<open>rotateMatrix\<close>

text \<open>
  A read \<^verbatim>\<open>m[y][x]\<close> past the end of a row gives \<^verbatim>\<open>undefined\<close>, which is falsy like
  0 and is written 0 here. The row \<^verbatim>\<open>m[y]\<close> itself exists, since \<open>y < m.length\<close>.
\<close>

definition matrix_at :: "matrix \<Rightarrow> nat \<Rightarrow> nat \<Rightarrow> nat" where
  "matrix_at m y x = (if y < length m \<and> x < length (m ! y) then m ! y ! x else 0)"

text \<open>
  \<^verbatim>\<open>for(let y=0;y<N;y++) for(let x=0;x<N;x++) ret[x][N-1-y]=m[y][x];\<close>
  on \<open>ret\<close>, an \<open>N\<close> by \<open>N\<close> matrix of zeros. Both indices of the write are below \<open>N\<close>.
\<close>

definition rotate_cell :: "matrix \<Rightarrow> nat \<Rightarrow> nat \<Rightarrow> matrix \<Rightarrow> matrix" where
  "rotate_cell m y x ret =
     (let N = length m in ret[x := (ret ! x)[N - 1 - y := matrix_at m y x]])"

definition rotateMatrix :: "matrix \<Rightarrow> matrix" where
  "rotateMatrix m =
     (let N = length m;
          ret = replicate N (replicate N 0)
      in fold (\<lambda>y ret. fold (rotate_cell m y) [0..<N] ret) [0..<N] ret)"

subsection \<open>collide\<close>

text \<open>
  \<^verbatim>\<open>arena[ay][ax]\<close> is read only after \<open>0 \<le> ay < ROWS\<close> and \<open>0 \<le> ax < COLS\<close> are
  known. An arena with fewer rows makes \<^verbatim>\<open>arena[ay]\<close> undefined, and reading its
  property throws a TypeError; a row that is too short reads as \<^verbatim>\<open>undefined\<close>,
  which is falsy like \<^verbatim>\<open>null\<close>.
\<close>

definition arena_at :: "arena \<Rightarrow> nat \<Rightarrow> nat \<Rightarrow> js_error + cell" where
  "arena_at a ay ax =
     (if ay < length a
      then Inr (if ax < length (a ! ay) then a ! ay ! ax else None)
      else Inl TypeError)"

text \<open>The inner loop over \<open>x\<close>, on what is left of row \<open>y\<close> of the matrix.\<close>

fun collide_row :: "arena \<Rightarrow> pos \<Rightarrow> int \<Rightarrow> nat list \<Rightarrow> int \<Rightarrow> js_error + bool" where
  "collide_row a p y [] x = Inr False"
| "collide_row a p y (v # vs) x =
     (if v \<noteq> 0 then
        (let ay = y + pos_y p; ax = x + pos_x p
         in if ay < 0 \<or> ay \<ge> int ROWS \<or> ax < 0 \<or> ax \<ge> int COLS then Inr True
            else (case arena_at a (nat ay) (nat ax) of
                    Inl e \<Rightarrow> Inl e
                  | Inr c \<Rightarrow> if c \<noteq> None then Inr True else collide_row a p y vs (x + 1)))
      else collide_row a p y vs (x + 1))"

text \<open>The outer loop over \<open>y\<close>, on the rows of the matrix that are left.\<close>

fun collide_rows :: "arena \<Rightarrow> pos \<Rightarrow> matrix \<Rightarrow> int \<Rightarrow> js_error + bool" where
  "collide_rows a p [] y = Inr False"
| "collide_rows a p (r # rs) y =
     (case collide_row a p y r 0 of
        Inl e \<Rightarrow> Inl e
      | Inr True \<Rightarrow> Inr True
      | Inr False \<Rightarrow> collide_rows a p rs (y + 1))"

text \<open>With \<^verbatim>\<open>piece.matrix\<close> null, \<^verbatim>\<open>matrix.length\<close> throws a TypeError.\<close>

definition collide :: "arena \<Rightarrow> player \<Rightarrow> js_error + bool" where
  "collide a piece =
     (case matrix piece of
        None \<Rightarrow> Inl TypeError
      | Some m \<Rightarrow> collide_rows a (pos piece) m 0)"

subsection \<open>merge\<close>

text \<open>
  The write \<^verbatim>\<open>row[i] = v\<close> on a JavaScript array: inside the row it replaces the
  element, past the end it lengthens the row (the holes read as \<^verbatim>\<open>undefined\<close>, falsy
  like \<^verbatim>\<open>null\<close>), and a negative \<open>i\<close> sets a property that is no element.
\<close>

definition set_cell :: "cell list \<Rightarrow> int \<Rightarrow> cell \<Rightarrow> cell list" where
  "set_cell r i v =
     (if i < 0 then r
      else if nat i < length r then r[nat i := v]
      else r @ replicate (nat i - length r) None @ [v])"

text \<open>
  \<^verbatim>\<open>arena[y+piece.pos.y][x+piece.pos.x] = piece.type\<close>: when the row index is outside
  the arena, \<^verbatim>\<open>arena[...]\<close> is undefined and the assignment throws a TypeError; the
  cells written before stay written.
\<close>

fun merge_row :: "arena \<Rightarrow> player \<Rightarrow> int \<Rightarrow> nat list \<Rightarrow> int \<Rightarrow> arena result" where
  "merge_row a piece y [] x = Returned a"
| "merge_row a piece y (v # vs) x =
     (if v \<noteq> 0 then
        (let ay = y + pos_y (pos piece); ax = x + pos_x (pos piece)
         in if ay < 0 \<or> ay \<ge> int (length a) then Threw TypeError a
            else merge_row (a[nat ay := set_cell (a ! nat ay) ax (type piece)]) piece y vs (x + 1))
      else merge_row a piece y vs (x + 1))"

fun merge_rows :: "arena \<Rightarrow> player \<Rightarrow> matrix \<Rightarrow> int \<Rightarrow> arena result" where
  "merge_rows a piece [] y = Returned a"
| "merge_rows a piece (r # rs) y =
     (case merge_row a piece y r 0 of
        Threw e a' \<Rightarrow> Threw e a'
      | Returned a' \<Rightarrow> merge_rows a' piece rs (y + 1))"

definition merge :: "arena \<Rightarrow> player \<Rightarrow> arena result" where
  "merge a piece =
     (case matrix piece of
        None \<Rightarrow> Threw TypeError a
      | Some m \<Rightarrow> merge_rows a piece m 0)"

subsection \<open>Sequencing, overlay, cues, rendering\<close>

text \<open>Run \<open>f\<close> on the state a call returned; a throw ends the sequence.\<close>

fun andThen :: "'a result \<Rightarrow> ('a \<Rightarrow> 'a result) \<Rightarrow> 'a result" where
  "andThen (Returned s) f = f s"
| "andThen (Threw e s) f = Threw e s"

fun state_of :: "'a result \<Rightarrow> 'a" where
  "state_of (Returned s) = s"
| "state_of (Threw e s) = s"

definition add_pos_x :: "int \<Rightarrow> game \<Rightarrow> game" where
  "add_pos_x d g =
     g\<lparr>player := (player g)\<lparr>pos := (pos (player g))\<lparr>pos_x := pos_x (pos (player g)) + d\<rparr>\<rparr>\<rparr>"

definition add_pos_y :: "int \<Rightarrow> game \<Rightarrow> game" where
  "add_pos_y d g =
     g\<lparr>player := (player g)\<lparr>pos := (pos (player g))\<lparr>pos_y := pos_y (pos (player g)) + d\<rparr>\<rparr>\<rparr>"

definition set_pos_x :: "int \<Rightarrow> game \<Rightarrow> game" where
  "set_pos_x v g = g\<lparr>player := (player g)\<lparr>pos := (pos (player g))\<lparr>pos_x := v\<rparr>\<rparr>\<rparr>"

definition set_matrix :: "matrix option \<Rightarrow> game \<Rightarrow> game" where
  "set_matrix m g = g\<lparr>player := (player g)\<lparr>matrix := m\<rparr>\<rparr>"

definition showPadOverlay :: "bool \<Rightarrow> game \<Rightarrow> game" where
  "showPadOverlay show g = g\<lparr>overlay := show\<rparr>"

text \<open>
  \<^verbatim>\<open>try { AudioMgr.play(key); } catch(e) { ... }\<close>: the cue is emitted, and no
  exception leaves the statement.
\<close>

definition play :: "cue \<Rightarrow> game \<Rightarrow> game" where
  "play key g = g\<lparr>cues := cues g @ [key]\<rparr>"

text \<open>
  \<^verbatim>\<open>renderBoard\<close> only draws, reading \<^verbatim>\<open>arena[y][x]\<close> for every \<open>y < ROWS\<close>: on an
  arena with fewer rows that read throws a TypeError. The canvas is not part of the
  state.
\<close>

definition renderBoard :: "game \<Rightarrow> game result" where
  "renderBoard g = (if length (arena g) < ROWS then Threw TypeError g else Returned g)"

text \<open>
  \<^verbatim>\<open>renderSide\<close> is called by \<^verbatim>\<open>enqueuePredictedPiece\<close> and \<^verbatim>\<open>summonPieceNow\<close> and is
  declared nowhere in the source (``removed side rendering''): the call throws a
  ReferenceError.
\<close>

definition renderSide :: "game \<Rightarrow> game result" where
  "renderSide g = Threw ReferenceError g"

subsection \<open>clearLines and onLinesCleared\<close>

text \<open>
  \<^verbatim>\<open>for(let x=0;x<COLS;x++){ if(!arena[y][x]) continue outer; }\<close> falls through when
  every one of the \<open>COLS\<close> cells is truthy; a cell past the end of the row is
  \<^verbatim>\<open>undefined\<close>.
\<close>

definition row_full :: "cell list \<Rightarrow> bool" where
  "row_full r = list_all (\<lambda>x. x < length r \<and> r ! x \<noteq> None) [0..<COLS]"

text \<open>
  \<^verbatim>\<open>score\<close>, \<^verbatim>\<open>level\<close> and \<^verbatim>\<open>cleared\<close> are JavaScript numbers, that is doubles, and
  hold integers. The result of an addition or multiplication of integers is the exact
  result rounded to a double: kept as it is up to magnitude \<open>2^53\<close>, and beyond that
  rounded to 53 significant bits, to the nearest, a tie going to the even one. (From
  \<open>2^1024\<close> on the code has \<^verbatim>\<open>Infinity\<close>, which is not represented here.)
\<close>

function ulp :: "int \<Rightarrow> int" where
  "ulp m = (if m < 2 ^ 53 then 1 else 2 * ulp (m div 2))"
  by pat_completeness auto
termination
  by (relation "measure nat") auto

declare ulp.simps [simp del]

text \<open>
  \<open>ulp m\<close> is the distance between two doubles next to the magnitude \<open>m\<close>: the power
  of two that leaves 53 bits.
\<close>

definition to_double :: "int \<Rightarrow> int" where
  "to_double v =
     (let m = \<bar>v\<bar>
      in if m \<le> 2 ^ 53 then v
         else
           (let q = ulp m;
                d = m div q;
                r = m mod q;
                d' = (if 2 * r > q \<or> (2 * r = q \<and> odd d) then d + 1 else d)
            in sgn v * (d' * q)))"

text \<open>\<^verbatim>\<open>const points=[0,40,100,300,1200][n]||0;\<close>\<close>

definition points :: "nat \<Rightarrow> int" where
  "points n = (if n < 5 then [0, 40, 100, 300, 1200] ! n else 0)"

definition onLinesCleared :: "nat \<Rightarrow> game \<Rightarrow> game" where
  "onLinesCleared n g =
     (let g1 = g\<lparr>score := to_double (score g + to_double (points n * level g))\<rparr>;
          g2 = g1\<lparr>cleared := to_double (cleared g1 + int n)\<rparr>
      in if cleared g2 \<ge> to_double (level g2 * 10) then g2\<lparr>level := to_double (level g2 + 1)\<rparr>
         else g2)"

text \<open>
  \<^verbatim>\<open>arena.splice(y,1)[0].fill(null)\<close> followed by \<^verbatim>\<open>arena.unshift(row)\<close>: row \<open>y\<close>
  leaves, and comes back on top with every cell null.
\<close>

definition remove_row :: "arena \<Rightarrow> nat \<Rightarrow> arena" where
  "remove_row a y = replicate (length (a ! y)) None # (take y a @ drop (Suc y) a)"

text \<open>
  The loop \<^verbatim>\<open>outer: for(let y=ROWS-1;y>=0;y--)\<close>. After a full row is removed,
  \<^verbatim>\<open>y++\<close> and the loop's \<^verbatim>\<open>y--\<close> leave \<open>y\<close> as it is. With fewer than \<open>y + 1\<close> rows,
  \<^verbatim>\<open>arena[y][0]\<close> throws a TypeError.
\<close>

function clearLines_loop :: "arena \<Rightarrow> nat \<Rightarrow> int \<Rightarrow> (arena \<times> nat) result" where
  "clearLines_loop a lines y =
     (if y < 0 then Returned (a, lines)
      else if int (length a) \<le> y then Threw TypeError (a, lines)
      else if row_full (a ! nat y) then clearLines_loop (remove_row a (nat y)) (lines + 1) y
      else clearLines_loop a lines (y - 1))"
  by pat_completeness auto
termination
proof (relation "measures [\<lambda>(a, lines, y). length (filter row_full a), \<lambda>(a, lines, y). nat (y + 1)]")
  show "wf (measures [\<lambda>(a, lines, y). length (filter row_full a), \<lambda>(a, lines, y). nat (y + 1)])"
    by simp
next
  fix a :: arena and lines :: nat and y :: int
  assume y: "\<not> y < 0" "\<not> int (length a) \<le> y" and full: "row_full (a ! nat y)"
  have lt: "nat y < length a" using y by linarith
  have split: "a = take (nat y) a @ a ! nat y # drop (Suc (nat y)) a"
    using lt by (simp add: id_take_nth_drop [symmetric])
  have "length (filter row_full a)
      = length (filter row_full (take (nat y) a)) + 1 + length (filter row_full (drop (Suc (nat y)) a))"
    by (subst split) (simp add: full)
  moreover have "\<not> row_full (replicate n None)" for n
    by (auto simp: row_full_def COLS_def list_all_iff intro: exI [of _ 0])
  ultimately have "length (filter row_full (remove_row a (nat y))) < length (filter row_full a)"
    by (simp add: remove_row_def)
  then show "((remove_row a (nat y), lines + 1, y), (a, lines, y))
      \<in> measures [\<lambda>(a, lines, y). length (filter row_full a), \<lambda>(a, lines, y). nat (y + 1)]"
    by simp
next
  fix a :: arena and lines :: nat and y :: int
  assume "\<not> y < 0"
  then show "((a, lines, y - 1), (a, lines, y))
      \<in> measures [\<lambda>(a, lines, y). length (filter row_full a), \<lambda>(a, lines, y). nat (y + 1)]"
    by simp
qed

declare clearLines_loop.simps [simp del]

definition clearLines :: "game \<Rightarrow> game result" where
  "clearLines g =
     (case clearLines_loop (arena g) 0 (int ROWS - 1) of
        Threw e (a, lines) \<Rightarrow> Threw e (g\<lparr>arena := a\<rparr>)
      | Returned (a, lines) \<Rightarrow>
          (let g1 = g\<lparr>arena := a\<rparr>
           in if lines > 0 then Returned (onLinesCleared lines (play Line g1)) else Returned g1))"

subsection \<open>The queue and spawning\<close>

definition getNextCode :: "game \<Rightarrow> piece_code option \<times> game" where
  "getNextCode g = (case queue g of [] \<Rightarrow> (None, g) | c # q \<Rightarrow> (Some c, g\<lparr>queue := q\<rparr>))"

definition createPiece :: "piece_code \<Rightarrow> player" where
  "createPiece code =
     \<lparr>pos = \<lparr>pos_x = 3, pos_y = 0\<rparr>, matrix = Some (map (\<lambda>r. r) (SHAPES code ! 0)),
      rot = 0, type = Some code\<rparr>"

definition spawnNext :: "game \<Rightarrow> game result" where
  "spawnNext g =
     (case getNextCode g of
        (None, g1) \<Rightarrow> Returned (showPadOverlay False (set_matrix None g1))
      | (Some code, g1) \<Rightarrow>
          (let p = createPiece code;
               g2 = g1\<lparr>player := (player g1)\<lparr>type := Some code, matrix := matrix p, rot := 0,
                                               pos := \<lparr>pos_x = 3, pos_y = 0\<rparr>\<rparr>\<rparr>
           in case collide (arena g2) (player g2) of
                Inl e \<Rightarrow> Threw e g2
              | Inr True \<Rightarrow>
                  Returned (showPadOverlay True
                    (g2\<lparr>arena := map (\<lambda>r. replicate (length r) None) (arena g2),
                        score := 0, level := 1, cleared := 0\<rparr>))
              | Inr False \<Rightarrow> Returned (showPadOverlay True g2)))"

definition summonPieceNow :: "piece_code \<Rightarrow> game \<Rightarrow> game result" where
  "summonPieceNow code g =
     (let p = createPiece code;
          g1 = g\<lparr>player := (player g)\<lparr>type := Some code, matrix := matrix p, rot := 0,
                                        pos := \<lparr>pos_x = 3, pos_y = 0\<rparr>\<rparr>\<rparr>;
          g2 = showPadOverlay True g1
      in case collide (arena g2) (player g2) of
           Inl e \<Rightarrow> Threw e g2
         | Inr True \<Rightarrow>
             renderSide
               (g2\<lparr>arena := map (\<lambda>r. replicate (length r) None) (arena g2),
                   score := 0, level := 1, cleared := 0, dropCounter := 0\<rparr>)
         | Inr False \<Rightarrow> renderSide (g2\<lparr>dropCounter := 0\<rparr>))"

definition enqueuePredictedPiece :: "piece_code \<Rightarrow> game \<Rightarrow> game result" where
  "enqueuePredictedPiece code g =
     (let g1 = g\<lparr>queue := queue g @ [code]\<rparr>
      in andThen (if matrix (player g1) = None then spawnNext g1 else Returned g1) renderSide)"

subsection \<open>Controls\<close>

definition dropInterval :: "game \<Rightarrow> int" where
  "dropInterval g =
     max 100 (to_double (DROP_START_SPEED_MS - to_double (to_double (level g - 1) * SPEED_PER_LEVEL)))"

definition playerDrop :: "game \<Rightarrow> game result" where
  "playerDrop g =
     (if matrix (player g) = None then Returned g
      else
        (let g1 = add_pos_y 1 g
         in case collide (arena g1) (player g1) of
              Inl e \<Rightarrow> Threw e g1
            | Inr True \<Rightarrow>
                (let g2 = add_pos_y (- 1) g1
                 in case merge (arena g2) (player g2) of
                      Threw e a \<Rightarrow> Threw e (g2\<lparr>arena := a\<rparr>)
                    | Returned a \<Rightarrow>
                        andThen (clearLines (play Lock (g2\<lparr>arena := a\<rparr>)))
                          (\<lambda>g3. andThen (spawnNext (showPadOverlay False (set_matrix None g3)))
                             (\<lambda>g4. renderBoard (g4\<lparr>dropCounter := 0\<rparr>))))
            | Inr False \<Rightarrow> renderBoard (g1\<lparr>dropCounter := 0\<rparr>)))"

definition playerMove :: "int \<Rightarrow> game \<Rightarrow> game result" where
  "playerMove dir g =
     (let g1 = add_pos_x dir g
      in case collide (arena g1) (player g1) of
           Inl e \<Rightarrow> Threw e g1
         | Inr True \<Rightarrow> renderBoard (add_pos_x (- dir) g1)
         | Inr False \<Rightarrow> renderBoard g1)"

text \<open>\<^verbatim>\<open>const kicks=[0,1,-1,2,-2];\<close>\<close>

definition kicks :: "int list" where
  "kicks = [0, 1, - 1, 2, - 2]"

text \<open>
  The loop \<^verbatim>\<open>for(const k of kicks)\<close> of \<^verbatim>\<open>playerRotate\<close>, on the kicks that are
  left; after the last one \<^verbatim>\<open>player.pos.x = oldX; renderBoard();\<close>. The \<^verbatim>\<open>return\<close> in
  the loop leaves before \<^verbatim>\<open>renderBoard\<close>.
\<close>

fun rotate_kicks :: "matrix \<Rightarrow> int \<Rightarrow> int list \<Rightarrow> game \<Rightarrow> game result" where
  "rotate_kicks rotated oldX [] g = renderBoard (set_pos_x oldX g)"
| "rotate_kicks rotated oldX (k # ks) g =
     (let g1 = set_pos_x (oldX + k) g;
          old = matrix (player g1);
          g2 = set_matrix (Some rotated) g1
      in case collide (arena g2) (player g2) of
           Inl e \<Rightarrow> Threw e g2
         | Inr False \<Rightarrow> Returned g2
         | Inr True \<Rightarrow> rotate_kicks rotated oldX ks (set_matrix old g2))"

definition playerRotate :: "game \<Rightarrow> game result" where
  "playerRotate g =
     (case matrix (player g) of
        None \<Rightarrow> Returned g
      | Some m \<Rightarrow> rotate_kicks (rotateMatrix m) (pos_x (pos (player g))) kicks g)"

definition holdPiece :: "game \<Rightarrow> game result" where
  "holdPiece g = Returned g"

text \<open>
  The hard drop is written out twice, in the \<^verbatim>\<open>keydown\<close> handler for the space key and
  in the click handler of \<^verbatim>\<open>btnHard\<close>, with the same text:
  \<^verbatim>\<open>if(!player.matrix) return;
  while(true){ player.pos.y++; if(collide(arena,player)){ player.pos.y--;
    merge(arena,player); clearLines(); spawnNext(); break; } }
  renderBoard();\<close>
  The loop ends only at a collision; \<open>None\<close> is a loop that never ends.
\<close>

partial_function (option) hardDrop_loop :: "game \<Rightarrow> game result option" where
  "hardDrop_loop g =
     (let g1 = add_pos_y 1 g
      in case collide (arena g1) (player g1) of
           Inl e \<Rightarrow> Some (Threw e g1)
         | Inr hit \<Rightarrow>
             if hit then
               (let g2 = add_pos_y (- 1) g1
                in case merge (arena g2) (player g2) of
                     Threw e a \<Rightarrow> Some (Threw e (g2\<lparr>arena := a\<rparr>))
                   | Returned a \<Rightarrow> Some (andThen (clearLines (g2\<lparr>arena := a\<rparr>)) spawnNext))
             else hardDrop_loop g1)"

declare hardDrop_loop.simps [code]

definition hardDrop :: "game \<Rightarrow> game result option" where
  "hardDrop g =
     (if matrix (player g) = None then Some (Returned g)
      else (case hardDrop_loop g of
              None \<Rightarrow> None
            | Some r \<Rightarrow> Some (andThen r renderBoard)))"

subsection \<open>The frame callback\<close>

definition update :: "real \<Rightarrow> game \<Rightarrow> game result" where
  "update time g =
     (let delta = time - lastTime g;
          g1 = g\<lparr>lastTime := time\<rparr>
      in andThen
           (if \<not> paused g1 \<and> matrix (player g1) \<noteq> None then
              (let g2 = g1\<lparr>dropCounter := dropCounter g1 + delta\<rparr>
               in if dropCounter g2 > real_of_int (dropInterval g2) then playerDrop g2
                  else Returned g2)
            else Returned g1)
           renderBoard)"

subsection \<open>The drawing pad and the classifier\<close>

definition isPieceActive :: "game \<Rightarrow> bool" where
  "isPieceActive g = (matrix (player g) \<noteq> None)"

text \<open>\<^verbatim>\<open>start\<close>: the strokes go to the pad's canvas, which is not part of the state.\<close>

definition start :: "game \<Rightarrow> game" where
  "start g = (if isPieceActive g then g else g\<lparr>drawing := True\<rparr>)"

text \<open>
  \<^verbatim>\<open>onPadReleased\<close> up to \<^verbatim>\<open>await predictPad()\<close>. The \<^verbatim>\<open>session\<close> exists whenever
  this code runs: had both \<^verbatim>\<open>InferenceSession.create\<close> calls failed, nothing after them
  would have been set up.
\<close>

definition onPadReleased_begin :: "game \<Rightarrow> game" where
  "onPadReleased_begin g =
     (if isPieceActive g \<or> \<not> gameReady g then g
      else (showPadOverlay True (play Summon g))\<lparr>pending := pending g + 1\<rparr>)"

text \<open>
  \<^verbatim>\<open>onPadReleased\<close> from the moment \<^verbatim>\<open>predictPad\<close> has answered with \<open>pieceCode\<close>
  (\<^verbatim>\<open>PIECE_CODES[best]\<close>, undefined when \<open>best\<close> is past the table).
\<close>

definition onPadReleased_resume :: "piece_code option \<Rightarrow> game \<Rightarrow> game result" where
  "onPadReleased_resume pieceCode g =
     (let g0 = g\<lparr>pending := pending g - 1\<rparr>
      in case pieceCode of
           Some code \<Rightarrow> andThen (spawnNext (g0\<lparr>queue := code # queue g0\<rparr>)) renderBoard
         | None \<Rightarrow> Returned (showPadOverlay False g0))"

text \<open>\<^verbatim>\<open>function end(){ if(!drawing) return; drawing=false; onPadReleased(); }\<close>\<close>

definition endDrawing :: "game \<Rightarrow> game" where
  "endDrawing g = (if \<not> drawing g then g else onPadReleased_begin (g\<lparr>drawing := False\<rparr>))"

subsection \<open>Events\<close>

datatype key = ArrowLeft | ArrowRight | ArrowDown | Space | ArrowUp | Key_x | Key_z | Key_c | Key_p
  | Key_other

datatype button = BtnLeft | BtnRight | BtnRotate | BtnSoft | BtnHard

fun keydown :: "key \<Rightarrow> game \<Rightarrow> game result option" where
  "keydown ArrowLeft g = Some (playerMove (- 1) g)"
| "keydown ArrowRight g = Some (playerMove 1 g)"
| "keydown ArrowDown g = Some (playerDrop g)"
| "keydown Space g = hardDrop g"
| "keydown ArrowUp g = Some (playerRotate g)"
| "keydown Key_x g = Some (playerRotate g)"
| "keydown Key_z g = Some (andThen (andThen (playerRotate g) playerRotate) playerRotate)"
| "keydown Key_c g = Some (holdPiece g)"
| "keydown Key_p g = Some (Returned (g\<lparr>paused := \<not> paused g\<rparr>))"
| "keydown Key_other g = Some (Returned g)"

fun click :: "button \<Rightarrow> game \<Rightarrow> game result option" where
  "click BtnLeft g = Some (playerMove (- 1) g)"
| "click BtnRight g = Some (playerMove 1 g)"
| "click BtnRotate g = Some (playerRotate g)"
| "click BtnSoft g = Some (playerDrop g)"
| "click BtnHard g = hardDrop g"

datatype event = KeyDown key | Click button | Frame real | PadStart | PadEnd
  | Classified "piece_code option"

text \<open>A classification can only come back when one is under way.\<close>

fun enabled :: "event \<Rightarrow> game \<Rightarrow> bool" where
  "enabled (Classified c) g = (pending g > 0)"
| "enabled e g = True"

fun handle :: "event \<Rightarrow> game \<Rightarrow> game result option" where
  "handle (KeyDown k) g = keydown k g"
| "handle (Click b) g = click b g"
| "handle (Frame time) g = Some (update time g)"
| "handle PadStart g = Some (Returned (start g))"
| "handle PadEnd g = Some (Returned (endDrawing g))"
| "handle (Classified c) g = Some (onPadReleased_resume c g)"

text \<open>
  The variables as declared, and the boot sequence
  \<^verbatim>\<open>spawnNext(); update(); gameReady = true;\<close> (\<^verbatim>\<open>update\<close> with its default \<open>time=0\<close>).
  The overlay starts as the page has it; the boot's \<^verbatim>\<open>spawnNext\<close> sets it.
\<close>

definition initial :: game where
  "initial =
     \<lparr>arena = createMatrix,
      player = \<lparr>pos = \<lparr>pos_x = 3, pos_y = 0\<rparr>, matrix = None, rot = 0, type = None\<rparr>,
      score = 0, level = 1, cleared = 0, queue = [], dropCounter = 0, lastTime = 0,
      paused = False, drawing = False, gameReady = False, pending = 0, overlay = False,
      cues = []\<rparr>"

definition boot :: "game result" where
  "boot = andThen (andThen (spawnNext initial) (update 0)) (\<lambda>g. Returned (g\<lparr>gameReady := True\<rparr>))"

text \<open>
  The states the page can be in between two callbacks. A callback that throws leaves
  the state it had reached.
\<close>

inductive reachable :: "game \<Rightarrow> bool" where
  reachable_boot: "boot = Returned g \<Longrightarrow> reachable g"
| reachable_step: "reachable g \<Longrightarrow> enabled e g \<Longrightarrow> handle e g = Some r \<Longrightarrow> reachable (state_of r)"

subsection \<open>Auxiliary notions for the statements\<close>

text \<open>
  The player as \<^verbatim>\<open>playerRotate\<close> tries it: the rotated matrix at column \<open>x\<close>, all else
  as in \<open>g\<close>.
\<close>

definition placed :: "game \<Rightarrow> matrix \<Rightarrow> int \<Rightarrow> player" where
  "placed g rotated x = (player g)\<lparr>pos := (pos (player g))\<lparr>pos_x := x\<rparr>, matrix := Some rotated\<rparr>"

subsection \<open>Example states\<close>

text \<open>
  An upright I piece against the left wall of the empty arena (its column is column 0 of
  the arena), and the same piece in a well one column wide.
\<close>

definition kick_example :: game where
  "kick_example =
     initial\<lparr>player := \<lparr>pos = \<lparr>pos_x = - 2, pos_y = 5\<rparr>, matrix = Some (SHAPES I_Piece ! 1),
                         rot = 0, type = Some I_Piece\<rparr>\<rparr>"

definition well_example :: game where
  "well_example =
     kick_example\<lparr>arena := replicate ROWS (None # replicate 9 (Some O_Piece))\<rparr>"

text \<open>
  Rows 17 and 19 full, row 18 with one block, at level 2; and a tower of O pieces in
  columns 3 and 4 up to the top row, with one more O piece in the queue.
\<close>

definition lines_example :: game where
  "lines_example =
     initial\<lparr>arena := replicate 17 (replicate 10 None)
                 @ [replicate 10 (Some O_Piece),
                    Some T_Piece # replicate 9 None,
                    replicate 10 (Some I_Piece)],
             score := 50, level := 2, cleared := 3\<rparr>"

definition tower_example :: game where
  "tower_example =
     initial\<lparr>arena := replicate ROWS (replicate 3 None @ [Some O_Piece, Some O_Piece] @ replicate 5 None),
             queue := [O_Piece], gameReady := True\<rparr>"

subsection \<open>The hard drop in the specification's words\<close>

text \<open>
  The specification describes the hard drop as: repeat the one-row vertical step until
  collision, then perform the same lock sequence as the soft drop once, that sequence
  being: merge into the arena, emit one lock cue, run line clearing, deactivate the
  piece, request the next spawn. The three definitions below follow these words, to be
  compared with \<open>hardDrop\<close>, which is the source's text. \<open>lock_sequence_spec\<close> is the
  text of the collision branch of \<^verbatim>\<open>playerDrop\<close> between \<^verbatim>\<open>player.pos.y--\<close> and
  \<^verbatim>\<open>dropCounter=0\<close>.
\<close>

definition lock_sequence_spec :: "game \<Rightarrow> game result" where
  "lock_sequence_spec g =
     (case merge (arena g) (player g) of
        Threw e a \<Rightarrow> Threw e (g\<lparr>arena := a\<rparr>)
      | Returned a \<Rightarrow>
          andThen (clearLines (play Lock (g\<lparr>arena := a\<rparr>)))
            (\<lambda>g3. spawnNext (showPadOverlay False (set_matrix None g3))))"

partial_function (option) hardDrop_spec_loop :: "game \<Rightarrow> game result option" where
  "hardDrop_spec_loop g =
     (let g1 = add_pos_y 1 g
      in case collide (arena g1) (player g1) of
           Inl e \<Rightarrow> Some (Threw e g1)
         | Inr hit \<Rightarrow>
             if hit then Some (lock_sequence_spec (add_pos_y (- 1) g1))
             else hardDrop_spec_loop g1)"

definition hardDrop_spec :: "game \<Rightarrow> game result option" where
  "hardDrop_spec g =
     (if matrix (player g) = None then Some (Returned g)
      else (case hardDrop_spec_loop g of
              None \<Rightarrow> None
            | Some r \<Rightarrow> Some (andThen r renderBoard)))"

declare hardDrop_spec_loop.simps [code]

subsection \<open>The insertion into the queue in the specification's words\<close>


text \<open>
  The state the boot leaves; that state after a stroke on the pad, while its
  classification is under way; and an O piece just spawned on the empty arena, with some
  time already counted towards the next gravity step.
\<close>

definition idle_example :: game where
  "idle_example = initial\<lparr>gameReady := True\<rparr>"


definition drop_example :: game where
  "drop_example =
     idle_example\<lparr>player := createPiece O_Piece, dropCounter := 500, lastTime := 4000,
                  overlay := True, cues := [Summon]\<rparr>"

text \<open>
  A T piece after one rotation, and the state the specification's hard drop leaves when
  the O piece of \<open>drop_example\<close> is dropped.
\<close>

definition rotated_example :: game where
  "rotated_example =
     idle_example\<lparr>player := (createPiece T_Piece)\<lparr>matrix := Some (SHAPES T_Piece ! 1)\<rparr>,
                  overlay := True, cues := [Summon]\<rparr>"

definition dropped_example :: game where
  "dropped_example =
     idle_example\<lparr>arena := replicate 18 (replicate 10 None)
                    @ replicate 2 (replicate 3 None @ [Some O_Piece, Some O_Piece] @ replicate 5 None),
                  player := (createPiece O_Piece)\<lparr>pos := \<lparr>pos_x = 3, pos_y = 18\<rparr>, matrix := None\<rparr>,
                  dropCounter := 500, lastTime := 4000, cues := [Summon, Lock]\<rparr>"

text \<open>
  The state in which the hard drop of \<open>drop_example\<close> calls \<^verbatim>\<open>spawnNext\<close>: the O piece
  is merged into rows 18 and 19 and is still the player's matrix.
\<close>

definition locked_example :: game where
  "locked_example =
     drop_example\<lparr>arena := replicate 18 (replicate 10 None)
                    @ replicate 2 (replicate 3 None @ [Some O_Piece, Some O_Piece] @ replicate 5 None),
                  player := (createPiece O_Piece)\<lparr>pos := \<lparr>pos_x = 3, pos_y = 18\<rparr>\<rparr>\<rparr>"

text \<open>The bottom row full, at level \<open>2^52 + 1\<close>.\<close>

definition huge_level_example :: game where
  "huge_level_example =
     initial\<lparr>arena := replicate 19 (replicate 10 None) @ [replicate 10 (Some I_Piece)],
             level := 2 ^ 52 + 1\<rparr>"

text \<open>What holds between any two callbacks: the rotation index is 0 and the queue is empty.\<close>

definition reach_inv :: "game \<Rightarrow> bool" where
  "reach_inv g = (rot (player g) = 0 \<and> queue g = [])"

section \<open>Four rotations\<close>

text \<open>Each of the four matrices of each of the seven tables comes back after four rotations.\<close>

lemma four_I: "list_all (\<lambda>m. (rotateMatrix ^^ 4) m = m) (SHAPES I_Piece)"
  by code_simp

lemma four_J: "list_all (\<lambda>m. (rotateMatrix ^^ 4) m = m) (SHAPES J_Piece)"
  by code_simp

lemma four_L: "list_all (\<lambda>m. (rotateMatrix ^^ 4) m = m) (SHAPES L_Piece)"
  by code_simp

lemma four_O: "list_all (\<lambda>m. (rotateMatrix ^^ 4) m = m) (SHAPES O_Piece)"
  by code_simp

lemma four_S: "list_all (\<lambda>m. (rotateMatrix ^^ 4) m = m) (SHAPES S_Piece)"
  by code_simp

lemma four_T: "list_all (\<lambda>m. (rotateMatrix ^^ 4) m = m) (SHAPES T_Piece)"
  by code_simp

lemma four_Z: "list_all (\<lambda>m. (rotateMatrix ^^ 4) m = m) (SHAPES Z_Piece)"
  by code_simp

lemma four_all: "list_all (\<lambda>m. (rotateMatrix ^^ 4) m = m) (SHAPES c)"
  using four_I four_J four_L four_O four_S four_T four_Z by (cases c) simp_all

lemma SHAPES_length: "length (SHAPES c) = 4"
  by (cases c) simp_all

text \<open>
  Claim C9. For every piece kind, each of the four rotation states of its table, and each
  matrix the game reaches from the spawn matrix \<^verbatim>\<open>SHAPES[code][0]\<close> by any number \<open>k\<close> of
  calls of \<^verbatim>\<open>rotateMatrix\<close>, is given back entry for entry by four more calls of
  \<^verbatim>\<open>rotateMatrix\<close>.
\<close>

theorem rotateMatrix_four_times:
  "(\<forall>m \<in> set (SHAPES c). (rotateMatrix ^^ 4) m = m)
   \<and> (rotateMatrix ^^ 4) ((rotateMatrix ^^ k) (SHAPES c ! 0)) = (rotateMatrix ^^ k) (SHAPES c ! 0)"
proof
  show all: "\<forall>m \<in> set (SHAPES c). (rotateMatrix ^^ 4) m = m"
    using four_all [of c] by (simp add: list_all_iff)
  have "SHAPES c ! 0 \<in> set (SHAPES c)"
    by (simp add: SHAPES_length)
  then have zero: "(rotateMatrix ^^ 4) (SHAPES c ! 0) = SHAPES c ! 0"
    using all by blast
  have "(rotateMatrix ^^ 4) ((rotateMatrix ^^ k) (SHAPES c ! 0))
      = (rotateMatrix ^^ (4 + k)) (SHAPES c ! 0)"
    by (simp only: funpow_add o_apply)
  also have "\<dots> = (rotateMatrix ^^ (k + 4)) (SHAPES c ! 0)"
    by (simp only: add.commute)
  also have "\<dots> = (rotateMatrix ^^ k) ((rotateMatrix ^^ 4) (SHAPES c ! 0))"
    by (simp only: funpow_add o_apply)
  finally show "(rotateMatrix ^^ 4) ((rotateMatrix ^^ k) (SHAPES c ! 0))
      = (rotateMatrix ^^ k) (SHAPES c ! 0)"
    by (simp only: zero)
qed

text \<open>
  The second state of the T piece is in the table, differs from the first, is what one
  rotation makes of the first, and comes back after four rotations.
\<close>

theorem rotateMatrix_four_times_witness:
  "SHAPES T_Piece ! 1 \<in> set (SHAPES T_Piece)
   \<and> (rotateMatrix ^^ 4) (SHAPES T_Piece ! 1) = SHAPES T_Piece ! 1
   \<and> rotateMatrix (SHAPES T_Piece ! 0) = SHAPES T_Piece ! 1
   \<and> SHAPES T_Piece ! 1 \<noteq> SHAPES T_Piece ! 0"
proof -
  have mem: "SHAPES T_Piece ! 1 \<in> set (SHAPES T_Piece)" by simp
  have "(rotateMatrix ^^ 4) (SHAPES T_Piece ! 1) = SHAPES T_Piece ! 1"
    using rotateMatrix_four_times [of T_Piece 0] mem by blast
  moreover have "rotateMatrix (SHAPES T_Piece ! 0) = SHAPES T_Piece ! 1" by code_simp
  moreover have "SHAPES T_Piece ! 1 \<noteq> SHAPES T_Piece ! 0" by simp
  ultimately show ?thesis using mem by blast
qed

section \<open>Collisions never throw on an arena of full height\<close>

lemma collide_row_no_throw:
  "length a = ROWS \<Longrightarrow> collide_row a p y vs x \<noteq> Inl e"
  by (induction vs arbitrary: x) (auto simp: arena_at_def Let_def)

lemma collide_rows_no_throw:
  "length a = ROWS \<Longrightarrow> collide_rows a p m y \<noteq> Inl e"
  by (induction m arbitrary: y)
    (auto simp: collide_row_no_throw split: sum.splits bool.splits)

lemma collide_total:
  assumes "length a = ROWS" and "matrix piece = Some m"
  obtains b where "collide a piece = Inr b"
  using assms collide_rows_no_throw [of a "pos piece" m 0]
  by (cases "collide a piece") (auto simp: collide_def)

lemma renderBoard_wf: "length (arena g) = ROWS \<Longrightarrow> renderBoard g = Returned g"
  by (simp add: renderBoard_def)

lemma state_of_renderBoard: "state_of (renderBoard g) = g"
  by (simp add: renderBoard_def)

section \<open>Rotation with wall kicks\<close>

text \<open>The first kick of the list that fits is taken.\<close>

lemma rotate_kicks_first_fit:
  assumes "i < length ks"
    and "collide (arena g) (placed g rotated (oldX + ks ! i)) = Inr False"
    and "\<forall>j<i. collide (arena g) (placed g rotated (oldX + ks ! j)) = Inr True"
  shows "rotate_kicks rotated oldX ks g = Returned (g\<lparr>player := placed g rotated (oldX + ks ! i)\<rparr>)"
  using assms
proof (induction ks arbitrary: i g)
  case Nil
  then show ?case by simp
next
  case (Cons k ks)
  let ?g1 = "set_pos_x (oldX + k) g"
  have same: "placed ?g1 rotated x = placed g rotated x" "arena ?g1 = arena g" for x
    by (simp_all add: placed_def set_pos_x_def)
  have restore: "set_matrix (matrix (player ?g1)) (set_matrix (Some rotated) ?g1) = ?g1"
    by (simp add: set_matrix_def)
  have here: "player (set_matrix (Some rotated) ?g1) = placed g rotated (oldX + k)"
    "arena (set_matrix (Some rotated) ?g1) = arena g"
    by (simp_all add: placed_def set_matrix_def set_pos_x_def)
  show ?case
  proof (cases i)
    case 0
    then have "collide (arena g) (placed g rotated (oldX + k)) = Inr False"
      using Cons.prems by simp
    then show ?thesis
      using 0 by (simp add: Let_def here) (simp add: placed_def set_matrix_def set_pos_x_def)
  next
    case (Suc n)
    have hit: "collide (arena g) (placed g rotated (oldX + k)) = Inr True"
      using Cons.prems(3) Suc by force
    have "rotate_kicks rotated oldX ks ?g1
        = Returned (?g1\<lparr>player := placed ?g1 rotated (oldX + ks ! n)\<rparr>)"
    proof (rule Cons.IH)
      show "n < length ks" using Cons.prems(1) Suc by simp
      show "collide (arena ?g1) (placed ?g1 rotated (oldX + ks ! n)) = Inr False"
        using Cons.prems(2) Suc by (simp add: same)
      show "\<forall>j<n. collide (arena ?g1) (placed ?g1 rotated (oldX + ks ! j)) = Inr True"
        using Cons.prems(3) Suc by (auto simp: same)
    qed
    then show ?thesis
      using Suc hit by (simp add: Let_def here restore same) (simp add: set_pos_x_def)
  qed
qed

text \<open>When no kick fits, the column is put back and nothing else has changed.\<close>

lemma rotate_kicks_none_fit:
  assumes "length (arena g) = ROWS"
    and "\<forall>k \<in> set ks. collide (arena g) (placed g rotated (oldX + k)) = Inr True"
  shows "rotate_kicks rotated oldX ks g = Returned (set_pos_x oldX g)"
  using assms
proof (induction ks arbitrary: g)
  case Nil
  then show ?case by (simp add: renderBoard_def set_pos_x_def)
next
  case (Cons k ks)
  let ?g1 = "set_pos_x (oldX + k) g"
  have same: "placed ?g1 rotated x = placed g rotated x" "arena ?g1 = arena g" for x
    by (simp_all add: placed_def set_pos_x_def)
  have restore: "set_matrix (matrix (player ?g1)) (set_matrix (Some rotated) ?g1) = ?g1"
    by (simp add: set_matrix_def)
  have here: "player (set_matrix (Some rotated) ?g1) = placed g rotated (oldX + k)"
    "arena (set_matrix (Some rotated) ?g1) = arena g"
    by (simp_all add: placed_def set_matrix_def set_pos_x_def)
  have "rotate_kicks rotated oldX ks ?g1 = Returned (set_pos_x oldX ?g1)"
    by (rule Cons.IH) (use Cons.prems in \<open>auto simp: same\<close>)
  then show ?case
    using Cons.prems(2) by (simp add: Let_def here restore) (simp add: set_pos_x_def)
qed

text \<open>
  Claim C6. Let a piece with matrix \<open>m\<close> be active on an arena of \<open>ROWS\<close> rows, and let
  \<open>placed g (rotateMatrix m) (x + k)\<close> be the player with the rotated matrix, moved by
  \<open>k\<close> columns. The kicks are \<open>[0, 1, -1, 2, -2]\<close>. If the kick at index \<open>i\<close> does not
  collide and every kick before it in the list does, \<^verbatim>\<open>playerRotate\<close> returns with
  the player so placed and nothing else changed. If all five collide, it returns the
  state it was given. Each of the five tests gives true or false, none throws.
\<close>

theorem playerRotate_wall_kicks:
  assumes "matrix (player g) = Some m" and "length (arena g) = ROWS"
  shows "(\<forall>i<length kicks.
            collide (arena g) (placed g (rotateMatrix m) (pos_x (pos (player g)) + kicks ! i)) = Inr False
            \<and> (\<forall>j<i. collide (arena g) (placed g (rotateMatrix m) (pos_x (pos (player g)) + kicks ! j)) = Inr True)
            \<longrightarrow> playerRotate g
                = Returned (g\<lparr>player := placed g (rotateMatrix m) (pos_x (pos (player g)) + kicks ! i)\<rparr>))
         \<and> ((\<forall>i<length kicks.
               collide (arena g) (placed g (rotateMatrix m) (pos_x (pos (player g)) + kicks ! i)) = Inr True)
             \<longrightarrow> playerRotate g = Returned g)
         \<and> (\<forall>i<length kicks. \<exists>b.
               collide (arena g) (placed g (rotateMatrix m) (pos_x (pos (player g)) + kicks ! i)) = Inr b)
         \<and> kicks = [0, 1, - 1, 2, - 2]"
proof (intro conjI allI impI)
  fix i
  assume "i < length kicks"
    and "collide (arena g) (placed g (rotateMatrix m) (pos_x (pos (player g)) + kicks ! i)) = Inr False
       \<and> (\<forall>j<i. collide (arena g) (placed g (rotateMatrix m) (pos_x (pos (player g)) + kicks ! j)) = Inr True)"
  then show "playerRotate g
      = Returned (g\<lparr>player := placed g (rotateMatrix m) (pos_x (pos (player g)) + kicks ! i)\<rparr>)"
    using assms(1) by (simp add: playerRotate_def rotate_kicks_first_fit)
next
  assume "\<forall>i<length kicks.
     collide (arena g) (placed g (rotateMatrix m) (pos_x (pos (player g)) + kicks ! i)) = Inr True"
  then have "\<forall>k \<in> set kicks.
     collide (arena g) (placed g (rotateMatrix m) (pos_x (pos (player g)) + k)) = Inr True"
    by (auto simp: in_set_conv_nth)
  then have "playerRotate g = Returned (set_pos_x (pos_x (pos (player g))) g)"
    using assms by (simp add: playerRotate_def rotate_kicks_none_fit)
  then show "playerRotate g = Returned g"
    by (simp add: set_pos_x_def)
next
  fix i
  assume "i < length kicks"
  have "matrix (placed g (rotateMatrix m) (pos_x (pos (player g)) + kicks ! i)) = Some (rotateMatrix m)"
    by (simp add: placed_def)
  then show "\<exists>b. collide (arena g) (placed g (rotateMatrix m) (pos_x (pos (player g)) + kicks ! i)) = Inr b"
    using collide_total [OF assms(2)] by metis
next
  show "kicks = [0, 1, - 1, 2, - 2]" by (simp add: kicks_def)
qed

text \<open>
  Against the left wall the kicks 0, +1 and -1 collide and +2 fits: the piece ends in
  column 0. In the well all five collide and nothing changes.
\<close>

lemma kick_example_fit:
  "collide (arena kick_example)
     (placed kick_example (rotateMatrix (SHAPES I_Piece ! 1)) (pos_x (pos (player kick_example)) + kicks ! 3))
   = Inr False"
  by code_simp

lemma kick_example_before:
  "list_all (\<lambda>j. collide (arena kick_example)
     (placed kick_example (rotateMatrix (SHAPES I_Piece ! 1)) (pos_x (pos (player kick_example)) + kicks ! j))
   = Inr True) [0..<3]"
  by code_simp

lemma well_example_all:
  "list_all (\<lambda>j. collide (arena well_example)
     (placed well_example (rotateMatrix (SHAPES I_Piece ! 1)) (pos_x (pos (player well_example)) + kicks ! j))
   = Inr True) [0..<length kicks]"
  by code_simp

lemma kick_example_placed:
  "placed kick_example (rotateMatrix (SHAPES I_Piece ! 1)) (pos_x (pos (player kick_example)) + kicks ! 3)
   = \<lparr>pos = \<lparr>pos_x = 0, pos_y = 5\<rparr>, matrix = Some (SHAPES I_Piece ! 2), rot = 0, type = Some I_Piece\<rparr>"
  by code_simp

theorem playerRotate_wall_kicks_witness:
  "matrix (player kick_example) = Some (SHAPES I_Piece ! 1)
   \<and> length (arena kick_example) = ROWS
   \<and> playerRotate kick_example
     = Returned (kick_example\<lparr>player :=
         \<lparr>pos = \<lparr>pos_x = 0, pos_y = 5\<rparr>, matrix = Some (SHAPES I_Piece ! 2), rot = 0, type = Some I_Piece\<rparr>\<rparr>)
   \<and> matrix (player well_example) = Some (SHAPES I_Piece ! 1)
   \<and> length (arena well_example) = ROWS
   \<and> playerRotate well_example = Returned well_example"
proof -
  have m1: "matrix (player kick_example) = Some (SHAPES I_Piece ! 1)"
    by (simp add: kick_example_def)
  have l1: "length (arena kick_example) = ROWS"
    by (simp add: kick_example_def initial_def createMatrix_def)
  have m2: "matrix (player well_example) = Some (SHAPES I_Piece ! 1)"
    by (simp add: well_example_def kick_example_def)
  have l2: "length (arena well_example) = ROWS"
    by (simp add: well_example_def)
  have three: "3 < length kicks"
    by (simp add: kicks_def)
  have before: "\<forall>j<3. collide (arena kick_example)
      (placed kick_example (rotateMatrix (SHAPES I_Piece ! 1)) (pos_x (pos (player kick_example)) + kicks ! j))
      = Inr True"
    using kick_example_before by (simp add: list_all_iff)
  have all: "\<forall>j<length kicks. collide (arena well_example)
      (placed well_example (rotateMatrix (SHAPES I_Piece ! 1)) (pos_x (pos (player well_example)) + kicks ! j))
      = Inr True"
    using well_example_all by (simp add: list_all_iff)
  note C6 = playerRotate_wall_kicks
  have "playerRotate kick_example
      = Returned (kick_example\<lparr>player := placed kick_example (rotateMatrix (SHAPES I_Piece ! 1))
          (pos_x (pos (player kick_example)) + kicks ! 3)\<rparr>)"
    using C6 [OF m1 l1, THEN conjunct1] three kick_example_fit before by blast
  then have first: "playerRotate kick_example
      = Returned (kick_example\<lparr>player :=
         \<lparr>pos = \<lparr>pos_x = 0, pos_y = 5\<rparr>, matrix = Some (SHAPES I_Piece ! 2), rot = 0, type = Some I_Piece\<rparr>\<rparr>)"
    by (simp only: kick_example_placed)
  have second: "playerRotate well_example = Returned well_example"
    using C6 [OF m2 l2, THEN conjunct2, THEN conjunct1] all by blast
  show ?thesis
    using m1 l1 first m2 l2 second by blast
qed

section \<open>Line clearing\<close>

lemma row_full_iff: "length r = COLS \<Longrightarrow> row_full r \<longleftrightarrow> None \<notin> set r"
  by (auto simp: row_full_def list_all_iff in_set_conv_nth)

lemma remove_row_length: "n < length a \<Longrightarrow> length (remove_row a n) = length a"
  by (simp add: remove_row_def)

lemma clearLines_loop_filter:
  assumes "- 1 \<le> y" and "y < int (length a)" and "\<forall>r \<in> set a. length r = w"
  shows "clearLines_loop a lines y
       = Returned (replicate (length (filter row_full (take (nat (y + 1)) a))) (replicate w None)
                     @ filter (\<lambda>r. \<not> row_full r) (take (nat (y + 1)) a) @ drop (nat (y + 1)) a,
                   lines + length (filter row_full (take (nat (y + 1)) a)))"
  using assms
proof (induction a lines y rule: clearLines_loop.induct)
  case (1 a lines y)
  show ?case
  proof (cases "y < 0")
    case True
    then have "y = - 1" using "1.prems" by simp
    then show ?thesis by (subst clearLines_loop.simps) simp
  next
    case False
    define n where "n = nat y"
    have n: "n < length a" "y = int n" "nat (y + 1) = Suc n" "nat (y - 1 + 1) = n"
      using False "1.prems" by (simp_all add: n_def)
    have tk: "take (Suc n) a = take n a @ [a ! n]"
      using n(1) by (simp add: take_Suc_conv_app_nth)
    have dr: "drop n a = a ! n # drop (Suc n) a"
      using n(1) by (simp add: Cons_nth_drop_Suc)
    have notle: "\<not> int (length a) \<le> y" using "1.prems" by simp
    show ?thesis
    proof (cases "row_full (a ! n)")
      case True
      let ?a' = "remove_row a n"
      have w: "length (a ! n) = w" using "1.prems"(3) n(1) by simp
      have a': "?a' = replicate w None # (take n a @ drop (Suc n) a)"
        by (simp add: remove_row_def w)
      have nf: "\<not> row_full (replicate w None)"
        by (auto simp: row_full_def COLS_def list_all_iff intro: exI [of _ 0])
      have wf': "\<forall>r \<in> set ?a'. length r = w"
        using "1.prems"(3) by (auto simp: a' dest: in_set_takeD in_set_dropD)
      have len': "y < int (length ?a')"
        using n by (simp add: remove_row_length)
      have tk': "take (Suc n) ?a' = replicate w None # take n a"
        using n(1) by (simp add: a')
      have dr': "drop (Suc n) ?a' = drop (Suc n) a"
        using n(1) by (simp add: a')
      have IH: "clearLines_loop ?a' (lines + 1) y
        = Returned (replicate (length (filter row_full (take (Suc n) ?a'))) (replicate w None)
                     @ filter (\<lambda>r. \<not> row_full r) (take (Suc n) ?a') @ drop (Suc n) ?a',
                   lines + 1 + length (filter row_full (take (Suc n) ?a')))"
        using "1.IH"(1) False notle True "1.prems"(1) len' wf' n(3) by (simp add: n_def)
      have "clearLines_loop a lines y = clearLines_loop ?a' (lines + 1) y"
        using False notle True by (subst clearLines_loop.simps) (simp add: n_def)
      also note IH
      finally show ?thesis
        unfolding n(3) using True nf
        by (simp add: tk tk' dr' replicate_append_same)
    next
      case nfull: False
      have IH: "clearLines_loop a lines (y - 1)
        = Returned (replicate (length (filter row_full (take n a))) (replicate w None)
                     @ filter (\<lambda>r. \<not> row_full r) (take n a) @ drop n a,
                   lines + length (filter row_full (take n a)))"
        using "1.IH"(2) False notle nfull "1.prems" n(1,4) by (simp add: n_def)
      have "clearLines_loop a lines y = clearLines_loop a lines (y - 1)"
        using False notle nfull by (subst clearLines_loop.simps) (simp add: n_def)
      also note IH
      finally show ?thesis
        unfolding n(3) using nfull by (simp add: tk dr)
    qed
  qed
qed

lemma filter_nth_position:
  "i < length xs \<Longrightarrow> P (xs ! i) \<Longrightarrow> filter P xs ! length (filter P (take i xs)) = xs ! i"
proof (induction xs arbitrary: i)
  case Nil
  then show ?case by simp
next
  case (Cons x xs)
  then show ?case by (cases i) auto
qed

lemma arena_onLinesCleared: "arena (onLinesCleared n g) = arena g"
  by (simp add: onLinesCleared_def Let_def)

lemma arena_play: "arena (play k g) = arena g"
  by (simp add: play_def)

lemma clearLines_loop_all:
  assumes "length a = ROWS" and "\<forall>r \<in> set a. length r = COLS"
  shows "clearLines_loop a 0 (int ROWS - 1)
       = Returned (replicate (length (filter row_full a)) (replicate COLS None)
                     @ filter (\<lambda>r. \<not> row_full r) a,
                   length (filter row_full a))"
proof -
  have "nat (int ROWS - 1 + 1) = length a" using assms(1) by simp
  then show ?thesis
    using clearLines_loop_filter [of "int ROWS - 1" a COLS 0] assms by simp
qed

lemma full_filter_eq:
  assumes "\<forall>r \<in> set a. length r = COLS"
  shows "filter row_full a = filter (\<lambda>r. None \<notin> set r) a"
    and "filter (\<lambda>r. \<not> row_full r) a = filter (\<lambda>r. None \<in> set r) a"
  using assms by (auto intro!: filter_cong simp: row_full_iff)

lemma compact_position:
  assumes "i < length a" and "Q (a ! i)"
  shows "(replicate (length (filter (\<lambda>r. \<not> Q r) a)) e @ filter Q a)
           ! (i + length (filter (\<lambda>r. \<not> Q r) (drop (Suc i) a))) = a ! i"
proof -
  have split: "a = take i a @ a ! i # drop (Suc i) a"
    using assms(1) by (simp add: id_take_nth_drop [symmetric])
  have "length (filter (\<lambda>r. \<not> Q r) a)
      = length (filter (\<lambda>r. \<not> Q r) (take i a)) + length (filter (\<lambda>r. \<not> Q r) (drop (Suc i) a))"
    by (subst split) (simp add: assms(2))
  moreover have "length (filter Q (take i a)) + length (filter (\<lambda>r. \<not> Q r) (take i a)) = i"
    using sum_length_filter_compl [of Q "take i a"] assms(1) by simp
  ultimately have "i + length (filter (\<lambda>r. \<not> Q r) (drop (Suc i) a))
      = length (filter (\<lambda>r. \<not> Q r) a) + length (filter Q (take i a))"
    by simp
  then show ?thesis
    using filter_nth_position [of i a Q] assms by (simp add: nth_append)
qed

text \<open>
  Claim C7. On an arena of 20 rows of 10 cells, \<^verbatim>\<open>clearLines\<close> returns normally; the new
  arena is one empty row for each row without an empty cell, followed by the rows that
  have an empty cell, in their order; it has 20 rows; and a row that stays and was at
  index \<open>i\<close> ends at \<open>i\<close> plus the number of removed rows below it: one step down for
  each removed row below it, and unmoved when none is below.
\<close>

theorem clearLines_compacts:
  assumes "length (arena g) = ROWS" and "\<forall>r \<in> set (arena g). length r = COLS"
  shows "\<exists>g'. clearLines g = Returned g'
           \<and> arena g' = replicate (length (filter (\<lambda>r. None \<notin> set r) (arena g))) (replicate COLS None)
                          @ filter (\<lambda>r. None \<in> set r) (arena g)
           \<and> length (arena g') = ROWS
           \<and> (\<forall>i<ROWS. None \<in> set (arena g ! i) \<longrightarrow>
                 arena g' ! (i + length (filter (\<lambda>r. None \<notin> set r) (drop (Suc i) (arena g))))
                 = arena g ! i)
           \<and> ROWS = 20 \<and> COLS = 10"
proof -
  let ?a = "arena g"
  let ?n = "length (filter (\<lambda>r. None \<notin> set r) ?a)"
  let ?a' = "replicate ?n (replicate COLS None) @ filter (\<lambda>r. None \<in> set r) ?a"
  have loop: "clearLines_loop ?a 0 (int ROWS - 1) = Returned (?a', ?n)"
    using clearLines_loop_all [OF assms] by (simp add: full_filter_eq [OF assms(2)])
  define g' where "g' = (if ?n > 0 then onLinesCleared ?n (play Line (g\<lparr>arena := ?a'\<rparr>))
                         else g\<lparr>arena := ?a'\<rparr>)"
  have g': "clearLines g = Returned g'" "arena g' = ?a'"
    by (simp_all add: clearLines_def loop Let_def g'_def arena_onLinesCleared arena_play)
  have len: "length ?a' = ROWS"
    using sum_length_filter_compl [of "\<lambda>r. None \<in> set r" ?a] assms(1) by simp
  have pos: "?a' ! (i + length (filter (\<lambda>r. None \<notin> set r) (drop (Suc i) ?a))) = ?a ! i"
    if "i < ROWS" "None \<in> set (?a ! i)" for i
    using compact_position [of i ?a "\<lambda>r. None \<in> set r"] that assms(1) by simp
  show ?thesis
    using g' len pos by (auto simp: ROWS_def COLS_def)
qed
lemma lines_example_wf:
  "length (arena lines_example) = ROWS" "\<forall>r \<in> set (arena lines_example). length r = COLS"
  by (simp_all add: lines_example_def ROWS_def COLS_def)

lemma lines_example_compact:
  "replicate (length (filter (\<lambda>r. None \<notin> set r) (arena lines_example))) (replicate COLS None)
     @ filter (\<lambda>r. None \<in> set r) (arena lines_example)
   = replicate 19 (replicate 10 None) @ [Some T_Piece # replicate 9 None]"
  by code_simp

lemma lines_example_row:
  "None \<in> set (arena lines_example ! 18)"
  "18 + length (filter (\<lambda>r. None \<notin> set r) (drop (Suc 18) (arena lines_example))) = 19"
  by code_simp+

text \<open>
  Rows 17 and 19 go, two empty rows come on top, and row 18 ends at index 19.
\<close>

theorem clearLines_compacts_witness:
  "length (arena lines_example) = ROWS
   \<and> list_all (\<lambda>r. length r = COLS) (arena lines_example)
   \<and> (\<exists>g'. clearLines lines_example = Returned g'
         \<and> arena g' = replicate 19 (replicate 10 None) @ [Some T_Piece # replicate 9 None]
         \<and> arena g' ! 19 = arena lines_example ! 18)"
proof -
  obtain g' where g': "clearLines lines_example = Returned g'"
    and a: "arena g' = replicate (length (filter (\<lambda>r. None \<notin> set r) (arena lines_example)))
                          (replicate COLS None)
                        @ filter (\<lambda>r. None \<in> set r) (arena lines_example)"
    and p: "\<forall>i<ROWS. None \<in> set (arena lines_example ! i) \<longrightarrow>
              arena g' ! (i + length (filter (\<lambda>r. None \<notin> set r) (drop (Suc i) (arena lines_example))))
              = arena lines_example ! i"
    using clearLines_compacts [OF lines_example_wf] by blast
  have "18 < ROWS" by (simp add: ROWS_def)
  then have "arena g' ! (18 + length (filter (\<lambda>r. None \<notin> set r) (drop (Suc 18) (arena lines_example))))
      = arena lines_example ! 18"
    using p lines_example_row(1) by blast
  then have "arena g' ! 19 = arena lines_example ! 18"
    by (simp only: lines_example_row(2))
  moreover have "arena g' = replicate 19 (replicate 10 None) @ [Some T_Piece # replicate 9 None]"
    using a by (simp only: lines_example_compact)
  ultimately show ?thesis
    using g' lines_example_wf by (auto simp: list_all_iff)
qed

section \<open>Scoring\<close>

lemma to_double_exact: "\<bar>v\<bar> \<le> 2 ^ 53 \<Longrightarrow> to_double v = v"
  by (simp add: to_double_def Let_def)

lemma score_onLinesCleared:
  "score (onLinesCleared n g) = to_double (score g + to_double (points n * level g))"
  by (simp add: onLinesCleared_def Let_def)

lemma cleared_onLinesCleared: "cleared (onLinesCleared n g) = to_double (cleared g + int n)"
  by (simp add: onLinesCleared_def Let_def)

lemma points_table: "n < 5 \<Longrightarrow> points n = [0, 40, 100, 300, 1200] ! n"
  by (simp add: points_def)

lemma points_bounds: "0 \<le> points n" "points n \<le> 1200"
proof -
  have "n = 0 \<or> n = 1 \<or> n = 2 \<or> n = 3 \<or> n = 4 \<or> 5 \<le> n" by arith
  then show "0 \<le> points n" "points n \<le> 1200"
    by (auto simp: points_def)
qed

text \<open>While the numbers stay within \<open>2^53\<close>, the score and the lines grow exactly.\<close>

lemma onLinesCleared_exact:
  assumes "1 \<le> level g" and "0 \<le> score g" and "0 \<le> cleared g"
    and "score g + 1200 * level g \<le> 2 ^ 53" and "cleared g + 4 \<le> 2 ^ 53" and "n < 5"
  shows "score (onLinesCleared n g) = score g + points n * level g"
    and "cleared (onLinesCleared n g) = cleared g + int n"
proof -
  have lo: "0 \<le> points n * level g"
    using points_bounds(1) [of n] assms(1) by simp
  have "points n * level g \<le> 1200 * level g"
    using points_bounds(2) [of n] assms(1) by (intro mult_right_mono) simp_all
  then have hi: "score g + points n * level g \<le> 2 ^ 53" "points n * level g \<le> 2 ^ 53"
    using assms(2,4) by linarith+
  have "to_double (points n * level g) = points n * level g"
    using lo hi(2) by (intro to_double_exact) simp
  moreover have "to_double (score g + points n * level g) = score g + points n * level g"
    using lo hi(1) assms(2) by (intro to_double_exact) simp
  ultimately show "score (onLinesCleared n g) = score g + points n * level g"
    by (simp add: score_onLinesCleared)
  have "to_double (cleared g + int n) = cleared g + int n"
    using assms(3,5,6) by (intro to_double_exact) simp
  then show "cleared (onLinesCleared n g) = cleared g + int n"
    by (simp add: cleared_onLinesCleared)
qed

text \<open>
  Claim C8, as amended. On an arena of 20 rows of 10 cells let \<open>n\<close> be the number of rows
  in which all 10 cells are occupied, and let the level be at least 1, the score and the
  cleared lines not negative, \<open>score + 1200 \<times> level\<close> at most \<open>2^53\<close> and
  \<open>cleared + 4\<close> at most \<open>2^53\<close>. Then \<^verbatim>\<open>clearLines\<close> returns normally; for \<open>n\<close> from 1
  to 4 the score has grown by exactly \<open>[0,40,100,300,1200][n]\<close> times the level before
  the call and the cleared lines by \<open>n\<close>; for \<open>n = 0\<close> the score, the cleared lines and
  the level are as they were.
\<close>

theorem clearLines_score_table:
  assumes "length (arena g) = ROWS" and "\<forall>r \<in> set (arena g). length r = COLS"
    and "n = length (filter (\<lambda>r. None \<notin> set r) (arena g))"
    and "1 \<le> level g" and "0 \<le> score g" and "0 \<le> cleared g"
    and "score g + 1200 * level g \<le> 2 ^ 53" and "cleared g + 4 \<le> 2 ^ 53"
  shows "\<exists>g'. clearLines g = Returned g'
           \<and> (n \<in> {1, 2, 3, 4} \<longrightarrow>
                 score g' = score g + [0, 40, 100, 300, 1200] ! n * level g
                 \<and> cleared g' = cleared g + int n)
           \<and> (n = 0 \<longrightarrow> score g' = score g \<and> cleared g' = cleared g \<and> level g' = level g)"
proof -
  let ?a' = "replicate n (replicate COLS None) @ filter (\<lambda>r. None \<in> set r) (arena g)"
  have loop: "clearLines_loop (arena g) 0 (int ROWS - 1) = Returned (?a', n)"
    using clearLines_loop_all [OF assms(1,2)] by (simp add: full_filter_eq [OF assms(2)] assms(3))
  let ?g1 = "play Line (g\<lparr>arena := ?a'\<rparr>)"
  define g' where "g' = (if n > 0 then onLinesCleared n ?g1 else g\<lparr>arena := ?a'\<rparr>)"
  have ret: "clearLines g = Returned g'"
    by (simp add: clearLines_def loop Let_def g'_def)
  have none: "score g' = score g \<and> cleared g' = cleared g \<and> level g' = level g" if "n = 0"
    using that by (simp add: g'_def)
  have some: "score g' = score g + [0, 40, 100, 300, 1200] ! n * level g
      \<and> cleared g' = cleared g + int n" if "n \<in> {1, 2, 3, 4}"
  proof -
    have n: "0 < n" "n < 5" using that by auto
    have eq: "g' = onLinesCleared n ?g1"
      using n(1) by (simp add: g'_def)
    have vals: "level ?g1 = level g" "score ?g1 = score g" "cleared ?g1 = cleared g"
      by (simp_all add: play_def)
    have "score g' = score g + points n * level g" "cleared g' = cleared g + int n"
      using onLinesCleared_exact [of ?g1 n] assms(4-8) n(2) by (simp_all only: eq vals)
    then show ?thesis
      by (simp only: points_table [OF n(2)])
  qed
  show ?thesis
    using ret none some by blast
qed

text \<open>
  The claim as stated holds the table at every level from 1 on. At level \<open>2^52 + 1\<close>,
  with the bottom row full and the score 0, the table gives \<open>40 \<times> (2^52 + 1)\<close>, which
  ends in 880; the score after the call is the double next to it, which ends in 872.
\<close>

theorem score_table_inexact_at_huge_level:
  "length (filter row_full (arena huge_level_example)) = 1
   \<and> level huge_level_example = 2 ^ 52 + 1
   \<and> score huge_level_example = 0
   \<and> score huge_level_example + [0, 40, 100, 300, 1200] ! 1 * level huge_level_example
     = 180143985094819880
   \<and> score (state_of (clearLines huge_level_example)) = 180143985094819872
   \<and> score (state_of (clearLines huge_level_example))
     \<noteq> score huge_level_example + [0, 40, 100, 300, 1200] ! 1 * level huge_level_example"
  by code_simp

lemma lines_example_full_rows:
  "length (filter (\<lambda>r. None \<notin> set r) (arena lines_example)) = 2"
  by code_simp

text \<open>Two rows at level 2: the score goes from 50 to 250, the lines from 3 to 5.\<close>

theorem clearLines_score_table_witness:
  "length (arena lines_example) = ROWS
   \<and> list_all (\<lambda>r. length r = COLS) (arena lines_example)
   \<and> length (filter (\<lambda>r. None \<notin> set r) (arena lines_example)) = 2
   \<and> level lines_example = 2 \<and> score lines_example = 50 \<and> cleared lines_example = 3
   \<and> (\<exists>g'. clearLines lines_example = Returned g' \<and> score g' = 250 \<and> cleared g' = 5)"
proof -
  have vals: "level lines_example = 2" "score lines_example = 50" "cleared lines_example = 3"
    by (simp_all add: lines_example_def)
  have safe: "1 \<le> level lines_example" "0 \<le> score lines_example" "0 \<le> cleared lines_example"
    "score lines_example + 1200 * level lines_example \<le> 2 ^ 53"
    "cleared lines_example + 4 \<le> 2 ^ 53"
    by (simp_all add: vals)
  obtain g' where g': "clearLines lines_example = Returned g'"
    and s: "(2::nat) \<in> {1, 2, 3, 4} \<longrightarrow>
              score g' = score lines_example + [0, 40, 100, 300, 1200] ! 2 * level lines_example
              \<and> cleared g' = cleared lines_example + int 2"
    using clearLines_score_table [OF lines_example_wf lines_example_full_rows [symmetric] safe]
    by blast
  have "(2::nat) \<in> {1, 2, 3, 4}" by simp
  then have "score g' = score lines_example + [0, 40, 100, 300, 1200] ! 2 * level lines_example"
    and "cleared g' = cleared lines_example + int 2"
    using s by blast+
  then have "score g' = 250" "cleared g' = 5"
    by (simp_all add: vals)
  then show ?thesis
    using g' vals lines_example_wf lines_example_full_rows by (auto simp: list_all_iff)
qed

text \<open>
  With the queue empty, as it is between any two callbacks, the spawn that follows the
  line clearing cannot reset the score: the score after the whole soft drop that locks a
  piece is the score that \<^verbatim>\<open>clearLines\<close> left.
\<close>

lemma playerDrop_lock_score:
  assumes "queue g = []" and "matrix (player g) \<noteq> None"
    and "collide (arena (add_pos_y 1 g)) (player (add_pos_y 1 g)) = Inr True"
    and "merge (arena (add_pos_y (- 1) (add_pos_y 1 g))) (player (add_pos_y (- 1) (add_pos_y 1 g)))
         = Returned a"
    and "clearLines_loop a 0 (int ROWS - 1) = Returned (a', n)"
  shows "score (state_of (playerDrop g))
       = (if n = 0 then score g else to_double (score g + to_double (points n * level g)))"
proof -
  let ?g2 = "add_pos_y (- 1) (add_pos_y 1 g)"
  let ?g3 = "play Lock (?g2\<lparr>arena := a\<rparr>)"
  define g4 where "g4 = (if n > 0 then onLinesCleared n (play Line (?g3\<lparr>arena := a'\<rparr>))
                         else ?g3\<lparr>arena := a'\<rparr>)"
  have cl: "clearLines ?g3 = Returned g4"
    using assms(5) by (simp add: clearLines_def Let_def g4_def play_def)
  have q4: "queue g4 = []"
    using assms(1) by (simp add: g4_def onLinesCleared_def Let_def play_def add_pos_y_def)
  have s4: "score g4 = (if n = 0 then score g else to_double (score g + to_double (points n * level g)))"
    by (simp add: g4_def score_onLinesCleared play_def add_pos_y_def)
  have sp: "spawnNext (showPadOverlay False (set_matrix None g4))
      = Returned (showPadOverlay False (set_matrix None g4))"
    using q4 by (simp add: spawnNext_def getNextCode_def showPadOverlay_def set_matrix_def)
  have "state_of (playerDrop g) = (showPadOverlay False (set_matrix None g4))\<lparr>dropCounter := 0\<rparr>"
    using assms(2,3,4) by (auto simp: playerDrop_def Let_def cl sp state_of_renderBoard)
  then show ?thesis
    by (simp add: s4 showPadOverlay_def set_matrix_def)
qed

section \<open>Spawning\<close>

lemma createPiece_eq:
  "(p::player)\<lparr>type := Some code, matrix := matrix (createPiece code), rot := 0,
               pos := \<lparr>pos_x = 3, pos_y = 0\<rparr>\<rparr> = createPiece code"
  by (simp add: createPiece_def)

text \<open>
  Claim C4, as amended. For every arena and queue, when the piece made from the front of
  the queue collides at its spawn offset (3, 0), \<^verbatim>\<open>spawnNext\<close> returns normally, every
  cell of the arena is empty (the rows keep their lengths), the score and the cleared
  lines are 0 and the level is 1; the piece is in play and has left the queue.
\<close>

theorem spawnNext_game_over_reset:
  assumes "queue g = code # rest"
    and "collide (arena g) (createPiece code) = Inr True"
  shows "\<exists>g'. spawnNext g = Returned g'
           \<and> arena g' = map (\<lambda>r. replicate (length r) None) (arena g)
           \<and> (\<forall>r \<in> set (arena g'). \<forall>c \<in> set r. c = None)
           \<and> score g' = 0 \<and> level g' = 1 \<and> cleared g' = 0
           \<and> player g' = createPiece code \<and> queue g' = rest"
  using assms
  by (simp add: spawnNext_def getNextCode_def Let_def createPiece_eq showPadOverlay_def)

text \<open>
  The claim as stated has the level zeroed. With the tower of O pieces up to the top row
  the next O piece collides where it spawns, and the level after the reset is 1.
\<close>

theorem level_not_zeroed:
  "queue tower_example = [O_Piece]
   \<and> collide (arena tower_example) (createPiece O_Piece) = Inr True
   \<and> level (state_of (spawnNext tower_example)) = 1
   \<and> level (state_of (spawnNext tower_example)) \<noteq> 0"
  by code_simp

theorem spawnNext_game_over_reset_witness:
  "queue tower_example = [O_Piece]
   \<and> collide (arena tower_example) (createPiece O_Piece) = Inr True
   \<and> (\<exists>g'. spawnNext tower_example = Returned g'
         \<and> arena g' = createMatrix \<and> score g' = 0 \<and> level g' = 1 \<and> cleared g' = 0)"
proof -
  have q: "queue tower_example = [O_Piece]"
    by (simp add: tower_example_def)
  have c: "collide (arena tower_example) (createPiece O_Piece) = Inr True"
    by code_simp
  have a: "map (\<lambda>r. replicate (length r) None) (arena tower_example) = createMatrix"
    by code_simp
  show ?thesis
    using spawnNext_game_over_reset [OF q c] q c by (auto simp: a)
qed

text \<open>
  Claim C1, as amended. In every state with a piece in play and an empty queue,
  \<^verbatim>\<open>spawnNext\<close> returns normally and leaves the position, the rotation index, the type,
  the queue, the arena and the score as they were, but it is no no-op: it sets
  \<^verbatim>\<open>player.matrix\<close> to null, so that no piece is in play, and hides the overlay.
\<close>

theorem spawnNext_active_empty_queue:
  assumes "matrix (player g) \<noteq> None" and "queue g = []"
  shows "spawnNext g = Returned (g\<lparr>player := (player g)\<lparr>matrix := None\<rparr>, overlay := False\<rparr>)
       \<and> spawnNext g \<noteq> Returned g
       \<and> matrix (player (state_of (spawnNext g))) = None
       \<and> pos (player (state_of (spawnNext g))) = pos (player g)
       \<and> rot (player (state_of (spawnNext g))) = rot (player g)
       \<and> type (player (state_of (spawnNext g))) = type (player g)
       \<and> queue (state_of (spawnNext g)) = queue g
       \<and> arena (state_of (spawnNext g)) = arena g
       \<and> score (state_of (spawnNext g)) = score g
       \<and> level (state_of (spawnNext g)) = level g
       \<and> cleared (state_of (spawnNext g)) = cleared g"
proof -
  have eq: "spawnNext g = Returned (g\<lparr>player := (player g)\<lparr>matrix := None\<rparr>, overlay := False\<rparr>)"
    using assms(2) by (simp add: spawnNext_def getNextCode_def showPadOverlay_def set_matrix_def)
  have "matrix (player (g\<lparr>player := (player g)\<lparr>matrix := None\<rparr>, overlay := False\<rparr>)) \<noteq> matrix (player g)"
    using assms(1) by auto
  then have "g\<lparr>player := (player g)\<lparr>matrix := None\<rparr>, overlay := False\<rparr> \<noteq> g"
    by metis
  then show ?thesis
    by (simp add: eq)
qed

text \<open>
  The hard drop calls \<^verbatim>\<open>spawnNext\<close> in such a state: the piece it has merged is still
  the player's matrix, and \<^verbatim>\<open>spawnNext\<close> is what takes it out of play.
\<close>

lemma hardDrop_calls_spawnNext_active:
  "hardDrop_loop drop_example = Some (spawnNext locked_example)"
  "clearLines locked_example = Returned locked_example"
  by code_simp+

text \<open>
  The claim as stated has \<^verbatim>\<open>spawnNext\<close> change nothing while a piece is in play. In the
  state in which the hard drop calls it, the O piece is in play, and after the call no
  piece is.
\<close>

theorem spawnNext_active_not_noop:
  "matrix (player locked_example) = Some (SHAPES O_Piece ! 0)
   \<and> queue locked_example = []
   \<and> matrix (player (state_of (spawnNext locked_example))) = None"
  by code_simp

theorem spawnNext_active_empty_queue_witness:
  "matrix (player locked_example) = Some (SHAPES O_Piece ! 0)
   \<and> queue locked_example = []
   \<and> spawnNext locked_example
     = Returned (locked_example\<lparr>player := (player locked_example)\<lparr>matrix := None\<rparr>, overlay := False\<rparr>)
   \<and> arena (state_of (spawnNext locked_example)) = arena locked_example"
proof -
  have m: "matrix (player locked_example) = Some (SHAPES O_Piece ! 0)"
    and q: "queue locked_example = []"
    by (simp_all add: locked_example_def drop_example_def idle_example_def initial_def
        createPiece_def)
  have active: "matrix (player locked_example) \<noteq> None"
    by (simp add: m)
  show ?thesis
    using spawnNext_active_empty_queue [OF active q] m q by blast
qed

section \<open>The boot\<close>

lemma boot_idle: "boot = Returned idle_example"
  by code_simp

section \<open>Commands without a piece\<close>

text \<open>
  With no piece in play the soft drop, the hard drop and the rotation return at their
  guard; \<^verbatim>\<open>playerMove\<close> has no guard, moves the column and throws in \<^verbatim>\<open>collide\<close>.
\<close>

lemma idle_commands:
  assumes "matrix (player g) = None"
  shows "playerMove dir g = Threw TypeError (add_pos_x dir g)"
    and "playerDrop g = Returned g"
    and "hardDrop g = Some (Returned g)"
    and "playerRotate g = Returned g"
  using assms
  by (simp_all add: playerMove_def playerDrop_def hardDrop_def playerRotate_def collide_def
      add_pos_x_def Let_def)

text \<open>
  Claim C3. The claim has every command a no-op without error when no piece is in play.
  In the state the boot leaves, the left and right arrow keys throw a TypeError and
  leave the column at 2 and at 4 instead of 3; the down, space and up keys change
  nothing.
\<close>

theorem playerMove_idle_throws:
  "boot = Returned idle_example
   \<and> matrix (player idle_example) = None
   \<and> keydown ArrowLeft idle_example
     = Some (Threw TypeError (idle_example\<lparr>player := (player idle_example)\<lparr>pos := \<lparr>pos_x = 2, pos_y = 0\<rparr>\<rparr>\<rparr>))
   \<and> keydown ArrowRight idle_example
     = Some (Threw TypeError (idle_example\<lparr>player := (player idle_example)\<lparr>pos := \<lparr>pos_x = 4, pos_y = 0\<rparr>\<rparr>\<rparr>))
   \<and> keydown ArrowDown idle_example = Some (Returned idle_example)
   \<and> keydown Space idle_example = Some (Returned idle_example)
   \<and> keydown ArrowUp idle_example = Some (Returned idle_example)"
  by code_simp

section \<open>The hard drop\<close>

lemma andThen_assoc: "andThen (andThen r f) h = andThen r (\<lambda>s. andThen (f s) h)"
  by (cases r) simp_all

text \<open>
  The lock sequence of the specification is what \<^verbatim>\<open>playerDrop\<close> does at a collision,
  before it resets the gravity counter and draws.
\<close>

lemma playerDrop_lock_sequence:
  assumes "matrix (player g) \<noteq> None"
    and "collide (arena (add_pos_y 1 g)) (player (add_pos_y 1 g)) = Inr True"
  shows "playerDrop g
       = andThen (lock_sequence_spec (add_pos_y (- 1) (add_pos_y 1 g)))
           (\<lambda>g4. renderBoard (g4\<lparr>dropCounter := 0\<rparr>))"
  using assms
  by (auto simp: playerDrop_def lock_sequence_spec_def Let_def andThen_assoc split: result.splits)

text \<open>
  No hard drop adds a lock cue, whatever the state; a soft drop that locks adds one.
\<close>

lemma cues_clearLines:
  "count_list (cues (state_of (clearLines g))) Lock = count_list (cues g) Lock"
  by (simp add: clearLines_def Let_def onLinesCleared_def play_def
      split: result.splits prod.splits)

lemma cues_spawnNext: "cues (state_of (spawnNext g)) = cues g"
  by (simp add: spawnNext_def getNextCode_def Let_def showPadOverlay_def set_matrix_def
      split: list.splits sum.splits bool.splits)

lemma cues_lock_tail:
  "count_list (cues (state_of (andThen (clearLines g) spawnNext))) Lock = count_list (cues g) Lock"
  using cues_clearLines [of g] by (cases "clearLines g") (simp_all add: cues_spawnNext)

lemma hardDrop_loop_no_lock_cue:
  assumes "hardDrop_loop g = Some r"
  shows "count_list (cues (state_of r)) Lock = count_list (cues g) Lock"
proof (rule hardDrop_loop.raw_induct
    [where P = "\<lambda>g r. count_list (cues (state_of r)) Lock = count_list (cues g) Lock"])
  show "hardDrop_loop g = Some r" by (rule assms)
next
  fix loop :: "game \<Rightarrow> game result option" and g r
  assume IH: "\<And>g r. loop g = Some r \<Longrightarrow> count_list (cues (state_of r)) Lock = count_list (cues g) Lock"
    and body: "(let g1 = add_pos_y 1 g
      in case collide (arena g1) (player g1) of
           Inl e \<Rightarrow> Some (Threw e g1)
         | Inr hit \<Rightarrow>
             if hit then
               (let g2 = add_pos_y (- 1) g1
                in case merge (arena g2) (player g2) of
                     Threw e a \<Rightarrow> Some (Threw e (g2\<lparr>arena := a\<rparr>))
                   | Returned a \<Rightarrow> Some (andThen (clearLines (g2\<lparr>arena := a\<rparr>)) spawnNext))
             else loop g1) = Some r"
  have c: "cues (add_pos_y d h) = cues h" for d h
    by (simp add: add_pos_y_def)
  show "count_list (cues (state_of r)) Lock = count_list (cues g) Lock"
  proof (cases "collide (arena (add_pos_y 1 g)) (player (add_pos_y 1 g))")
    case (Inl e)
    then show ?thesis using body by (auto simp: Let_def c)
  next
    case (Inr hit)
    show ?thesis
    proof (cases hit)
      case False
      then have "loop (add_pos_y 1 g) = Some r"
        using body Inr by (simp add: Let_def)
      then show ?thesis using IH [of "add_pos_y 1 g" r] by (simp add: c)
    next
      case True
      let ?g2 = "add_pos_y (- 1) (add_pos_y 1 g)"
      show ?thesis
      proof (cases "merge (arena ?g2) (player ?g2)")
        case (Returned a)
        then have "r = andThen (clearLines (?g2\<lparr>arena := a\<rparr>)) spawnNext"
          using body Inr True by (simp add: Let_def)
        then show ?thesis using cues_lock_tail [of "?g2\<lparr>arena := a\<rparr>"] by (simp add: c)
      next
        case (Threw e a)
        then have "r = Threw e (?g2\<lparr>arena := a\<rparr>)"
          using body Inr True by (simp add: Let_def)
        then show ?thesis by (simp add: c)
      qed
    qed
  qed
qed

lemma hardDrop_no_lock_cue:
  assumes "hardDrop g = Some r"
  shows "count_list (cues (state_of r)) Lock = count_list (cues g) Lock"
proof (cases "matrix (player g) = None")
  case True
  then show ?thesis using assms by (auto simp: hardDrop_def)
next
  case False
  then obtain r' where r': "hardDrop_loop g = Some r'" "r = andThen r' renderBoard"
    using assms by (auto simp: hardDrop_def split: option.splits)
  have "state_of (andThen r' renderBoard) = state_of r'"
    by (cases r') (simp_all add: state_of_renderBoard)
  then show ?thesis
    using hardDrop_loop_no_lock_cue [OF r'(1)] by (simp add: r'(2))
qed

lemma playerDrop_one_lock_cue:
  assumes "matrix (player g) \<noteq> None"
    and "collide (arena (add_pos_y 1 g)) (player (add_pos_y 1 g)) = Inr True"
    and "merge (arena (add_pos_y (- 1) (add_pos_y 1 g))) (player (add_pos_y (- 1) (add_pos_y 1 g)))
         = Returned a"
  shows "count_list (cues (state_of (playerDrop g))) Lock = count_list (cues g) Lock + 1"
proof -
  let ?g2 = "add_pos_y (- 1) (add_pos_y 1 g)"
  let ?g3 = "play Lock (?g2\<lparr>arena := a\<rparr>)"
  have c: "count_list (cues ?g3) Lock = count_list (cues g) Lock + 1"
    by (simp add: play_def add_pos_y_def)
  have tail: "cues (state_of (andThen (spawnNext (showPadOverlay False (set_matrix None s)))
      (\<lambda>g4. renderBoard (g4\<lparr>dropCounter := 0\<rparr>)))) = cues s" for s
    using cues_spawnNext [of "showPadOverlay False (set_matrix None s)"]
    by (cases "spawnNext (showPadOverlay False (set_matrix None s))")
      (simp_all add: state_of_renderBoard showPadOverlay_def set_matrix_def)
  have "count_list (cues (state_of (andThen (clearLines ?g3)
      (\<lambda>g3. andThen (spawnNext (showPadOverlay False (set_matrix None g3)))
         (\<lambda>g4. renderBoard (g4\<lparr>dropCounter := 0\<rparr>)))))) Lock = count_list (cues ?g3) Lock"
    using cues_clearLines [of ?g3] by (cases "clearLines ?g3") (simp_all add: tail)
  then show ?thesis
    using assms c by (auto simp: playerDrop_def Let_def)
qed

text \<open>
  Claim C5. The claim has the hard drop do the lock sequence of the soft drop, lock cue
  included. For the O piece just spawned on the empty arena, the hard drop in the
  specification's words ends with the cues summon, lock; the hard drop of the source
  ends in the same state but for the cues, which are summon alone.
\<close>

theorem hardDrop_emits_no_lock_cue:
  "hardDrop_spec drop_example = Some (Returned dropped_example)
   \<and> hardDrop drop_example = Some (Returned (dropped_example\<lparr>cues := [Summon]\<rparr>))
   \<and> cues dropped_example = [Summon, Lock]
   \<and> hardDrop drop_example \<noteq> hardDrop_spec drop_example"
  by code_simp

section \<open>Reachable states\<close>

lemma andThen_keeps:
  assumes "reach_inv (state_of r)" and "\<And>s. reach_inv s \<Longrightarrow> reach_inv (state_of (f s))"
  shows "reach_inv (state_of (andThen r f))"
  using assms by (cases r) simp_all

lemma clearLines_frame:
  "player (state_of (clearLines g)) = player g" "queue (state_of (clearLines g)) = queue g"
  by (simp_all add: clearLines_def Let_def onLinesCleared_def play_def
      split: result.splits prod.splits)

lemma inv_clearLines: "reach_inv g \<Longrightarrow> reach_inv (state_of (clearLines g))"
  by (simp add: reach_inv_def clearLines_frame)

lemma rot_spawnNext: "rot (player g) = 0 \<Longrightarrow> rot (player (state_of (spawnNext g))) = 0"
  by (simp add: spawnNext_def getNextCode_def Let_def showPadOverlay_def set_matrix_def
      split: list.splits sum.splits bool.splits)

lemma rot_spawnNext_spawn: "queue g \<noteq> [] \<Longrightarrow> rot (player (state_of (spawnNext g))) = 0"
  by (simp add: spawnNext_def getNextCode_def Let_def showPadOverlay_def set_matrix_def
      split: list.splits sum.splits bool.splits)

lemma rot_summonPieceNow: "rot (player (state_of (summonPieceNow code g))) = 0"
  by (simp add: summonPieceNow_def Let_def showPadOverlay_def renderSide_def
      split: sum.splits bool.splits)

lemma queue_spawnNext: "queue (state_of (spawnNext g)) = tl (queue g)"
  by (simp add: spawnNext_def getNextCode_def Let_def showPadOverlay_def set_matrix_def
      split: list.splits sum.splits bool.splits)

lemma inv_spawnNext: "reach_inv g \<Longrightarrow> reach_inv (state_of (spawnNext g))"
  by (simp add: reach_inv_def rot_spawnNext queue_spawnNext)

lemma inv_spawnNext_one:
  "rot (player g) = 0 \<Longrightarrow> queue g = [c] \<Longrightarrow> reach_inv (state_of (spawnNext g))"
  by (simp add: reach_inv_def rot_spawnNext queue_spawnNext)

lemma inv_updates:
  "reach_inv (add_pos_x d g) = reach_inv g"
  "reach_inv (add_pos_y d g) = reach_inv g"
  "reach_inv (set_pos_x v g) = reach_inv g"
  "reach_inv (set_matrix m g) = reach_inv g"
  "reach_inv (showPadOverlay b g) = reach_inv g"
  "reach_inv (play k g) = reach_inv g"
  "reach_inv (g\<lparr>arena := a\<rparr>) = reach_inv g"
  "reach_inv (g\<lparr>dropCounter := t\<rparr>) = reach_inv g"
  "reach_inv (g\<lparr>lastTime := t\<rparr>) = reach_inv g"
  "reach_inv (g\<lparr>paused := b\<rparr>) = reach_inv g"
  "reach_inv (g\<lparr>drawing := b\<rparr>) = reach_inv g"
  "reach_inv (g\<lparr>pending := n\<rparr>) = reach_inv g"
  by (simp_all add: reach_inv_def add_pos_x_def add_pos_y_def set_pos_x_def set_matrix_def
      showPadOverlay_def play_def)

lemma inv_renderBoard: "reach_inv g \<Longrightarrow> reach_inv (state_of (renderBoard g))"
  by (simp add: state_of_renderBoard)

lemma inv_lock:
  assumes "reach_inv g"
  shows "reach_inv (state_of
    (andThen (clearLines (play Lock (g\<lparr>arena := a\<rparr>)))
       (\<lambda>g3. andThen (spawnNext (showPadOverlay False (set_matrix None g3)))
          (\<lambda>g4. renderBoard (g4\<lparr>dropCounter := 0\<rparr>)))))"
proof (rule andThen_keeps)
  show "reach_inv (state_of (clearLines (play Lock (g\<lparr>arena := a\<rparr>))))"
    using assms by (simp add: inv_clearLines inv_updates)
next
  fix s assume s: "reach_inv s"
  show "reach_inv (state_of (andThen (spawnNext (showPadOverlay False (set_matrix None s)))
          (\<lambda>g4. renderBoard (g4\<lparr>dropCounter := 0\<rparr>))))"
  proof (rule andThen_keeps)
    show "reach_inv (state_of (spawnNext (showPadOverlay False (set_matrix None s))))"
      using s by (simp add: inv_spawnNext inv_updates)
  next
    fix s' assume "reach_inv s'"
    then show "reach_inv (state_of (renderBoard (s'\<lparr>dropCounter := 0\<rparr>)))"
      by (simp add: state_of_renderBoard inv_updates)
  qed
qed

lemma inv_playerDrop: "reach_inv g \<Longrightarrow> reach_inv (state_of (playerDrop g))"
  by (simp add: playerDrop_def Let_def inv_updates inv_lock state_of_renderBoard
      split: sum.splits bool.splits result.splits)

lemma inv_playerMove: "reach_inv g \<Longrightarrow> reach_inv (state_of (playerMove dir g))"
  by (simp add: playerMove_def Let_def inv_updates state_of_renderBoard
      split: sum.splits bool.splits)

lemma rot_rotate_kicks:
  "rot (player (state_of (rotate_kicks rotated oldX ks g))) = rot (player g)"
  by (induction ks arbitrary: g)
    (simp_all add: Let_def state_of_renderBoard set_pos_x_def set_matrix_def
      split: sum.splits bool.splits)

lemma queue_rotate_kicks:
  "queue (state_of (rotate_kicks rotated oldX ks g)) = queue g"
  by (induction ks arbitrary: g)
    (simp_all add: Let_def state_of_renderBoard set_pos_x_def set_matrix_def
      split: sum.splits bool.splits)

lemma rot_playerRotate: "rot (player (state_of (playerRotate g))) = rot (player g)"
  by (simp add: playerRotate_def rot_rotate_kicks split: option.splits)

lemma inv_playerRotate: "reach_inv g \<Longrightarrow> reach_inv (state_of (playerRotate g))"
  by (simp add: reach_inv_def playerRotate_def rot_rotate_kicks queue_rotate_kicks
      split: option.splits)

lemma inv_hardDrop_loop:
  assumes "hardDrop_loop g = Some r" and "reach_inv g"
  shows "reach_inv (state_of r)"
proof -
  have merged: "reach_inv (state_of (andThen (clearLines (h\<lparr>arena := a\<rparr>)) spawnNext))"
    if "reach_inv h" for h a
    by (rule andThen_keeps) (use that in \<open>simp_all add: inv_clearLines inv_spawnNext inv_updates\<close>)
  have "reach_inv g \<longrightarrow> reach_inv (state_of r)"
  proof (rule hardDrop_loop.raw_induct [where P = "\<lambda>g r. reach_inv g \<longrightarrow> reach_inv (state_of r)"])
    show "hardDrop_loop g = Some r" by (rule assms(1))
  next
    fix loop :: "game \<Rightarrow> game result option" and g r
    assume IH: "\<And>g r. loop g = Some r \<Longrightarrow> reach_inv g \<longrightarrow> reach_inv (state_of r)"
      and body: "(let g1 = add_pos_y 1 g
        in case collide (arena g1) (player g1) of
             Inl e \<Rightarrow> Some (Threw e g1)
           | Inr hit \<Rightarrow>
               if hit then
                 (let g2 = add_pos_y (- 1) g1
                  in case merge (arena g2) (player g2) of
                       Threw e a \<Rightarrow> Some (Threw e (g2\<lparr>arena := a\<rparr>))
                     | Returned a \<Rightarrow> Some (andThen (clearLines (g2\<lparr>arena := a\<rparr>)) spawnNext))
               else loop g1) = Some r"
    show "reach_inv g \<longrightarrow> reach_inv (state_of r)"
    proof
      assume g: "reach_inv g"
      show "reach_inv (state_of r)"
      proof (cases "collide (arena (add_pos_y 1 g)) (player (add_pos_y 1 g))")
        case (Inl e)
        then show ?thesis using body g by (auto simp: Let_def inv_updates)
      next
        case (Inr hit)
        show ?thesis
        proof (cases hit)
          case False
          then have "loop (add_pos_y 1 g) = Some r"
            using body Inr by (simp add: Let_def)
          then show ?thesis using IH g by (simp add: inv_updates)
        next
          case True
          let ?g2 = "add_pos_y (- 1) (add_pos_y 1 g)"
          have g2: "reach_inv ?g2" using g by (simp add: inv_updates)
          show ?thesis
          proof (cases "merge (arena ?g2) (player ?g2)")
            case (Returned a)
            then have "r = andThen (clearLines (?g2\<lparr>arena := a\<rparr>)) spawnNext"
              using body Inr True by (simp add: Let_def)
            then show ?thesis using merged [OF g2] by simp
          next
            case (Threw e a)
            then have "r = Threw e (?g2\<lparr>arena := a\<rparr>)"
              using body Inr True by (simp add: Let_def)
            then show ?thesis using g2 by (simp add: inv_updates)
          qed
        qed
      qed
    qed
  qed
  then show ?thesis using assms(2) by blast
qed

lemma inv_hardDrop:
  assumes "reach_inv g" and "hardDrop g = Some r"
  shows "reach_inv (state_of r)"
proof (cases "matrix (player g) = None")
  case True
  then show ?thesis using assms by (auto simp: hardDrop_def)
next
  case False
  then obtain r' where r': "hardDrop_loop g = Some r'" "r = andThen r' renderBoard"
    using assms(2) by (auto simp: hardDrop_def split: option.splits)
  have "reach_inv (state_of (andThen r' renderBoard))"
    by (rule andThen_keeps)
      (simp_all add: inv_hardDrop_loop [OF r'(1) assms(1)] state_of_renderBoard)
  then show ?thesis by (simp add: r'(2))
qed

lemma inv_update: "reach_inv g \<Longrightarrow> reach_inv (state_of (update time g))"
  unfolding update_def Let_def
  by (rule andThen_keeps) (simp_all add: inv_updates inv_playerDrop state_of_renderBoard)

lemma inv_start: "reach_inv g \<Longrightarrow> reach_inv (start g)"
  by (simp add: start_def inv_updates)

lemma inv_endDrawing: "reach_inv g \<Longrightarrow> reach_inv (endDrawing g)"
  by (simp add: endDrawing_def onPadReleased_begin_def inv_updates)

lemma inv_resume: "reach_inv g \<Longrightarrow> reach_inv (state_of (onPadReleased_resume c g))"
proof (cases c)
  case None
  assume "reach_inv g"
  then show ?thesis using None by (simp add: onPadReleased_resume_def Let_def inv_updates)
next
  case (Some code)
  assume g: "reach_inv g"
  have q: "rot (player g) = 0" "queue g = []"
    using g by (simp_all add: reach_inv_def)
  show ?thesis
    unfolding onPadReleased_resume_def Let_def Some option.case
  proof (rule andThen_keeps)
    fix s assume "reach_inv s"
    then show "reach_inv (state_of (renderBoard s))"
      by (simp add: state_of_renderBoard)
  qed (rule inv_spawnNext_one [of _ code], simp_all add: q)
qed

lemma inv_keydown:
  assumes g: "reach_inv g" and r: "keydown k g = Some r"
  shows "reach_inv (state_of r)"
proof (cases k)
  case Key_z
  have "reach_inv (state_of (andThen (andThen (playerRotate g) playerRotate) playerRotate))"
    by (intro andThen_keeps inv_playerRotate g)
  then show ?thesis using Key_z r by auto
next
  case Space
  then show ?thesis using inv_hardDrop [OF g] r by simp
qed (use g r in \<open>auto simp: inv_playerMove inv_playerDrop inv_playerRotate holdPiece_def inv_updates\<close>)

lemma inv_click:
  assumes g: "reach_inv g" and r: "click b g = Some r"
  shows "reach_inv (state_of r)"
proof (cases b)
  case BtnHard
  then show ?thesis using inv_hardDrop [OF g] r by simp
qed (use g r in \<open>auto simp: inv_playerMove inv_playerDrop inv_playerRotate\<close>)

lemma inv_handle:
  assumes g: "reach_inv g" and r: "handle e g = Some r"
  shows "reach_inv (state_of r)"
proof (cases e)
  case (KeyDown k)
  then show ?thesis using inv_keydown [OF g] r by simp
next
  case (Click b)
  then show ?thesis using inv_click [OF g] r by simp
qed (use g r in \<open>auto simp: inv_update inv_start inv_endDrawing inv_resume\<close>)

lemma reachable_inv: "reachable g \<Longrightarrow> reach_inv g"
proof (induction rule: reachable.induct)
  case (reachable_boot g)
  then have "g = idle_example"
    by (simp add: boot_idle)
  then show ?case
    by (simp add: reach_inv_def idle_example_def initial_def)
next
  case (reachable_step g e r)
  then show ?case using inv_handle by blast
qed

lemma reachable_queue_empty: "reachable g \<Longrightarrow> queue g = []"
  using reachable_inv by (simp add: reach_inv_def)

text \<open>
  Claim C10. In every reachable state the rotation index of the player is 0. The spawn
  paths (\<^verbatim>\<open>createPiece\<close>, \<^verbatim>\<open>spawnNext\<close> with a kind to spawn, \<^verbatim>\<open>summonPieceNow\<close>) set it to
  0, and \<^verbatim>\<open>playerRotate\<close> leaves it as it is, in every state and whether or not the
  rotation succeeds.
\<close>

theorem rot_always_zero:
  "(reachable g \<longrightarrow> rot (player g) = 0)
   \<and> rot (player (state_of (playerRotate g))) = rot (player g)
   \<and> (queue g \<noteq> [] \<longrightarrow> rot (player (state_of (spawnNext g))) = 0)
   \<and> rot (player (state_of (summonPieceNow code g))) = 0
   \<and> rot (createPiece code) = 0"
  using reachable_inv [of g] rot_playerRotate [of g] rot_spawnNext_spawn [of g]
    rot_summonPieceNow [of code g]
  by (simp add: reach_inv_def createPiece_def)

text \<open>
  Drawing, a classification as T and one press of the up key lead to a T piece in its
  second orientation with rotation index 0.
\<close>

lemma rotated_example_trace:
  "handle PadStart idle_example = Some (Returned (idle_example\<lparr>drawing := True\<rparr>))"
  "handle PadEnd (idle_example\<lparr>drawing := True\<rparr>)
     = Some (Returned (idle_example\<lparr>pending := 1, overlay := True, cues := [Summon]\<rparr>))"
  "handle (Classified (Some T_Piece)) (idle_example\<lparr>pending := 1, overlay := True, cues := [Summon]\<rparr>)
     = Some (Returned (idle_example\<lparr>player := createPiece T_Piece, overlay := True, cues := [Summon]\<rparr>))"
  "handle (KeyDown ArrowUp) (idle_example\<lparr>player := createPiece T_Piece, overlay := True, cues := [Summon]\<rparr>)
     = Some (Returned rotated_example)"
  by code_simp+

lemma rotated_example_reachable: "reachable rotated_example"
proof -
  have "reachable idle_example"
    by (rule reachable_boot) (rule boot_idle)
  from reachable_step [OF this _ rotated_example_trace(1)]
  have "reachable (idle_example\<lparr>drawing := True\<rparr>)" by simp
  from reachable_step [OF this _ rotated_example_trace(2)]
  have "reachable (idle_example\<lparr>pending := 1, overlay := True, cues := [Summon]\<rparr>)" by simp
  from reachable_step [OF this _ rotated_example_trace(3)]
  have "reachable (idle_example\<lparr>player := createPiece T_Piece, overlay := True, cues := [Summon]\<rparr>)"
    by (simp add: idle_example_def initial_def)
  from reachable_step [OF this _ rotated_example_trace(4)]
  show ?thesis by simp
qed

theorem rot_always_zero_witness:
  "reachable rotated_example
   \<and> rot (player rotated_example) = 0
   \<and> matrix (player rotated_example) = Some (SHAPES T_Piece ! 1)
   \<and> SHAPES T_Piece ! 1 \<noteq> SHAPES T_Piece ! rot (player rotated_example)"
proof -
  have zero: "rot (player rotated_example) = 0"
    using rot_always_zero [of rotated_example] rotated_example_reachable by blast
  have "matrix (player rotated_example) = Some (SHAPES T_Piece ! 1)"
    by (simp add: rotated_example_def)
  moreover have "SHAPES T_Piece ! 1 \<noteq> SHAPES T_Piece ! rot (player rotated_example)"
    by (simp add: zero)
  ultimately show ?thesis
    using rotated_example_reachable zero by blast
qed

section \<open>The order of spawning\<close>






end
